theory Spec2Isabelle
  imports Main
begin

section \<open>JavaScript strings\<close>

text \<open>
  A JavaScript string is a sequence of UTF-16 code units. The validator reads its input
  with \<^verbatim>\<open>fs.readFileSync(filePath, 'utf-8')\<close>, so every function below works on the decoded
  string. A code unit is modelled as a natural number (below 65536 for every string the
  program can hold); \<open>str\<close> embeds an ASCII literal of the source.
\<close>

type_synonym code_unit = nat
type_synonym js_string = "code_unit list"

definition str :: "string \<Rightarrow> js_string" where
  "str s = map of_char s"

text \<open>
  \<^verbatim>\<open>String.prototype.trim\<close> and the regular expression class \<^verbatim>\<open>\s\<close> use the same set:
  WhiteSpace and LineTerminator of ECMA-262 (TAB, LF, VT, FF, CR, SP, NBSP, the other
  space separators of Unicode, LS, PS and the byte order mark).
\<close>

definition is_space :: "code_unit \<Rightarrow> bool" where
  "is_space c \<longleftrightarrow>
     c = 9 \<or> c = 10 \<or> c = 11 \<or> c = 12 \<or> c = 13 \<or> c = 32 \<or> c = 160 \<or> c = 5760 \<or>
     (8192 \<le> c \<and> c \<le> 8202) \<or> c = 8232 \<or> c = 8233 \<or> c = 8239 \<or> c = 8287 \<or>
     c = 12288 \<or> c = 65279"

definition trim :: "js_string \<Rightarrow> js_string" where
  "trim s = rev (dropWhile is_space (rev (dropWhile is_space s)))"

text \<open>
  \<^verbatim>\<open>toLowerCase\<close> is only applied to the text that is then compared with the ASCII literal
  \<^verbatim>\<open><!doctype html>\<close>. On ASCII it maps \<^verbatim>\<open>A-Z\<close> to \<^verbatim>\<open>a-z\<close>. The only characters outside ASCII
  whose lower case starts with an ASCII letter are U+0130 (to \<^verbatim>\<open>i\<close>) and U+212A (to \<^verbatim>\<open>k\<close>), and
  neither letter occurs in the literal, so leaving every other code unit unchanged gives the
  same answer to the prefix test.
\<close>

definition lower_unit :: "code_unit \<Rightarrow> code_unit" where
  "lower_unit c = (if 65 \<le> c \<and> c \<le> 90 then c + 32 else c)"

definition toLowerCase :: "js_string \<Rightarrow> js_string" where
  "toLowerCase s = map lower_unit s"

fun startsWith :: "js_string \<Rightarrow> js_string \<Rightarrow> bool" where
  "startsWith s [] = True"
| "startsWith [] (p # ps) = False"
| "startsWith (c # cs) (p # ps) = (c = p \<and> startsWith cs ps)"

text \<open>\<^verbatim>\<open>s.includes(p)\<close>: \<open>p\<close> occurs in \<open>s\<close> at some position.\<close>

fun js_includes :: "js_string \<Rightarrow> js_string \<Rightarrow> bool" where
  "js_includes [] p = startsWith [] p"
| "js_includes (c # cs) p = (startsWith (c # cs) p \<or> js_includes cs p)"

text \<open>The decimal digits of a length, as a template literal prints a small integer.\<close>

fun show_nat :: "nat \<Rightarrow> js_string" where
  "show_nat n = (if n < 10 then [48 + n] else show_nat (n div 10) @ [48 + n mod 10])"

declare show_nat.simps [simp del]

text \<open>\<^verbatim>\<open>parts.join(', ')\<close>.\<close>

fun join :: "js_string \<Rightarrow> js_string list \<Rightarrow> js_string" where
  "join sep [] = []"
| "join sep [s] = s"
| "join sep (s # t # ss) = s @ sep @ join sep (t # ss)"

text \<open>
  \<^verbatim>\<open>s.split(/\s+/)\<close>: the pieces of \<open>s\<close> between the maximal runs of white space. A run at the
  start or at the end of \<open>s\<close> leaves an empty piece there, and the empty string splits into
  one empty piece.
\<close>

fun split_ws_from :: "js_string \<Rightarrow> js_string \<Rightarrow> bool \<Rightarrow> js_string list" where
  "split_ws_from piece [] in_run = [piece]"
| "split_ws_from piece (c # cs) in_run =
     (if is_space c then
        (if in_run then split_ws_from piece cs True
         else piece # split_ws_from [] cs True)
      else split_ws_from (piece @ [c]) cs False)"

definition split_ws :: "js_string \<Rightarrow> js_string list" where
  "split_ws s = split_ws_from [] s False"

section \<open>Regular expressions\<close>

text \<open>
  The patterns of the validator are sequences of literals, character classes under a
  greedy or lazy star, an alternation of literals and the end anchor. \<open>rmatch\<close> matches
  such a sequence at the start of a string the way a backtracking engine does: a greedy
  star tries the longest run first, a lazy star the shortest, an alternation its branches
  in order. It returns the text each item consumed, or \<open>None\<close> when every choice fails.
\<close>

datatype char_class = AnyUnit | NotUnit code_unit | Space | Digit | SlugUnit

fun in_class :: "char_class \<Rightarrow> code_unit \<Rightarrow> bool" where
  "in_class AnyUnit c = True"
| "in_class (NotUnit d) c = (c \<noteq> d)"
| "in_class Space c = is_space c"
| "in_class Digit c = (48 \<le> c \<and> c \<le> 57)"
| "in_class SlugUnit c = ((97 \<le> c \<and> c \<le> 122) \<or> (48 \<le> c \<and> c \<le> 57) \<or> c = 45)"

datatype item =
    Lit js_string
  | Star char_class
  | LazyStar char_class
  | Plus char_class
  | Alt "js_string list"
  | End

fun prepend_unit :: "code_unit \<Rightarrow> js_string list \<Rightarrow> js_string list" where
  "prepend_unit x [] = []"
| "prepend_unit x (c # cs) = (x # c) # cs"

fun weight :: "item \<Rightarrow> nat" where
  "weight (Alt ls) = Suc (Suc (length ls))"
| "weight (Plus k) = Suc (Suc 0)"
| "weight _ = Suc 0"

function rmatch :: "item list \<Rightarrow> js_string \<Rightarrow> js_string list option" where
  "rmatch [] s = Some []"
| "rmatch (Lit l # r) s =
     (if startsWith s l then map_option (Cons l) (rmatch r (drop (length l) s)) else None)"
| "rmatch (Star k # r) [] = map_option (Cons []) (rmatch r [])"
| "rmatch (Star k # r) (x # xs) =
     (if in_class k x then
        (case rmatch (Star k # r) xs of
           Some caps \<Rightarrow> Some (prepend_unit x caps)
         | None \<Rightarrow> map_option (Cons []) (rmatch r (x # xs)))
      else map_option (Cons []) (rmatch r (x # xs)))"
| "rmatch (LazyStar k # r) [] = map_option (Cons []) (rmatch r [])"
| "rmatch (LazyStar k # r) (x # xs) =
     (case rmatch r (x # xs) of
        Some caps \<Rightarrow> Some ([] # caps)
      | None \<Rightarrow>
          (if in_class k x then map_option (prepend_unit x) (rmatch (LazyStar k # r) xs)
           else None))"
| "rmatch (Plus k # r) [] = None"
| "rmatch (Plus k # r) (x # xs) =
     (if in_class k x then map_option (prepend_unit x) (rmatch (Star k # r) xs) else None)"
| "rmatch (Alt [] # r) s = None"
| "rmatch (Alt (l # ls) # r) s =
     (case rmatch (Lit l # r) s of
        Some caps \<Rightarrow> Some caps
      | None \<Rightarrow> rmatch (Alt ls # r) s)"
| "rmatch (End # r) s = (if s = [] then map_option (Cons []) (rmatch r []) else None)"
  by pat_completeness auto
termination
  by (relation "measures [\<lambda>(r, s). length s, \<lambda>(r, s). sum_list (map weight r)]") auto

text \<open>
  \<^verbatim>\<open>s.match(re)\<close> for a pattern without flags: the match at the leftmost position where
  one exists.
\<close>

fun rsearch :: "item list \<Rightarrow> js_string \<Rightarrow> js_string list option" where
  "rsearch r [] = rmatch r []"
| "rsearch r (x # xs) =
     (case rmatch r (x # xs) of
        Some caps \<Rightarrow> Some caps
      | None \<Rightarrow> rsearch r xs)"

section \<open>JSON values and \<^verbatim>\<open>JSON.parse\<close>\<close>

text \<open>
  A number is kept as the decimal the text wrote, \<open>JNumber m e\<close> for \<open>m * 10 ^ e\<close>; the
  double it denotes is a function of that. The members of an object are kept in the order
  of the text.
\<close>

datatype json =
    JNull
  | JBool bool
  | JNumber int int
  | JString js_string
  | JArray "json list"
  | JObject "(js_string \<times> json) list"

datatype token =
    TLBrace | TRBrace | TLBracket | TRBracket | TColon | TComma
  | TString js_string | TNumber int int | TTrue | TFalse | TNull

definition is_digit :: "code_unit \<Rightarrow> bool" where
  "is_digit c \<longleftrightarrow> 48 \<le> c \<and> c \<le> 57"

definition hex_digit :: "code_unit \<Rightarrow> nat option" where
  "hex_digit c =
     (if 48 \<le> c \<and> c \<le> 57 then Some (c - 48)
      else if 65 \<le> c \<and> c \<le> 70 then Some (c - 55)
      else if 97 \<le> c \<and> c \<le> 102 then Some (c - 87)
      else None)"

text \<open>The character after a backslash: \<^verbatim>\<open>" \ / b f n r t\<close>.\<close>

definition unescape :: "code_unit \<Rightarrow> code_unit option" where
  "unescape c =
     (if c = 34 \<or> c = 92 \<or> c = 47 then Some c
      else if c = 98 then Some 8
      else if c = 102 then Some 12
      else if c = 110 then Some 10
      else if c = 114 then Some 13
      else if c = 116 then Some 9
      else None)"

definition hex4 :: "js_string \<Rightarrow> code_unit option" where
  "hex4 hs =
     (case map hex_digit hs of
        [Some a, Some b, Some c, Some d] \<Rightarrow> Some (4096 * a + 256 * b + 16 * c + d)
      | _ \<Rightarrow> None)"

text \<open>
  \<open>lex_string\<close> reads a string literal after its opening quote and returns the decoded
  string and the text after the closing quote.
\<close>

fun lex_string :: "js_string \<Rightarrow> (js_string \<times> js_string) option" where
  "lex_string [] = None"
| "lex_string [c] = (if c = 34 then Some ([], []) else None)"
| "lex_string (c # e # es) =
     (if c = 34 then Some ([], e # es)
      else if c = 92 then
        (if e = 117 then
           (case hex4 (take 4 es) of
              None \<Rightarrow> None
            | Some u \<Rightarrow> map_option (apfst (Cons u)) (lex_string (drop 4 es)))
         else
           (case unescape e of
              None \<Rightarrow> None
            | Some u \<Rightarrow> map_option (apfst (Cons u)) (lex_string es)))
      else if c < 32 then None
      else map_option (apfst (Cons c)) (lex_string (e # es)))"

definition digits_value :: "js_string \<Rightarrow> nat" where
  "digits_value ds = foldl (\<lambda>a c. 10 * a + (c - 48)) 0 ds"

text \<open>
  \<open>lex_number\<close> reads \<^verbatim>\<open>-? (0 | [1-9][0-9]*) (. [0-9]+)? ([eE] [+-]? [0-9]+)?\<close> and
  returns mantissa, decimal exponent and the text after the number.
\<close>

definition lex_exponent :: "js_string \<Rightarrow> (int \<times> js_string) option" where
  "lex_exponent s =
     (case s of
        [] \<Rightarrow> Some (0, [])
      | c # cs \<Rightarrow>
          if c = 101 \<or> c = 69 then
            (let neg = (case cs of [] \<Rightarrow> False | d # _ \<Rightarrow> d = 45);
                 signed = (case cs of [] \<Rightarrow> False | d # _ \<Rightarrow> d = 45 \<or> d = 43);
                 ds = (if signed then tl cs else cs);
                 ep = takeWhile is_digit ds
             in if ep = [] then None
                else Some ((if neg then - int (digits_value ep) else int (digits_value ep)),
                           dropWhile is_digit ds))
          else Some (0, c # cs))"

definition lex_fraction :: "js_string \<Rightarrow> (js_string \<times> js_string) option" where
  "lex_fraction s =
     (case s of
        [] \<Rightarrow> Some ([], [])
      | c # cs \<Rightarrow>
          if c = 46 then
            (let fp = takeWhile is_digit cs
             in if fp = [] then None else Some (fp, dropWhile is_digit cs))
          else Some ([], c # cs))"

definition lex_number :: "js_string \<Rightarrow> ((int \<times> int) \<times> js_string) option" where
  "lex_number s =
     (let neg = (case s of [] \<Rightarrow> False | c # _ \<Rightarrow> c = 45);
          s1 = (if neg then tl s else s);
          ip = takeWhile is_digit s1
      in if ip = [] \<or> (1 < length ip \<and> hd ip = 48) then None
         else
           (case lex_fraction (dropWhile is_digit s1) of
              None \<Rightarrow> None
            | Some (fp, s2) \<Rightarrow>
                (case lex_exponent s2 of
                   None \<Rightarrow> None
                 | Some (ex, s3) \<Rightarrow>
                     Some (((if neg then - int (digits_value (ip @ fp))
                             else int (digits_value (ip @ fp))),
                            ex - int (length fp)), s3))))"

lemma lex_string_shorter:
  "lex_string s = Some (v, r) \<Longrightarrow> length r < length s"
proof (induction s arbitrary: v r rule: lex_string.induct)
  case 1
  then show ?case by simp
next
  case (2 c)
  then show ?case by (simp split: if_splits)
next
  case (3 c e es)
  show ?case
  proof (cases "c = 34")
    case True
    with "3.prems" show ?thesis by simp
  next
    case quote: False
    show ?thesis
    proof (cases "c = 92")
      case esc: True
      show ?thesis
      proof (cases "e = 117")
        case True
        with quote esc "3.prems" obtain u v' where
          u: "hex4 (take 4 es) = Some u" and rec: "lex_string (drop 4 es) = Some (v', r)"
          by (auto split: option.splits)
        from "3.IH"(1)[OF quote esc True u rec] show ?thesis by simp
      next
        case False
        with quote esc "3.prems" obtain u v' where
          u: "unescape e = Some u" and rec: "lex_string es = Some (v', r)"
          by (auto split: option.splits)
        from "3.IH"(2)[OF quote esc False u rec] show ?thesis by simp
      qed
    next
      case False
      with quote "3.prems" obtain v' where
        lo: "\<not> c < 32" and rec: "lex_string (e # es) = Some (v', r)"
        by (auto split: if_splits)
      from "3.IH"(3)[OF quote False lo rec] show ?thesis by simp
    qed
  qed
qed

lemma lex_fraction_shorter:
  "lex_fraction s = Some (fp, r) \<Longrightarrow> length r \<le> length s"
  by (auto simp: lex_fraction_def Let_def split: list.splits if_splits
      intro: le_trans[OF length_dropWhile_le])

lemma lex_exponent_shorter:
  "lex_exponent s = Some (ex, r) \<Longrightarrow> length r \<le> length s"
proof (cases s)
  case Nil
  then show "lex_exponent s = Some (ex, r) \<Longrightarrow> ?thesis" by (simp add: lex_exponent_def)
next
  case (Cons c cs)
  assume a: "lex_exponent s = Some (ex, r)"
  have t: "length (dropWhile is_digit (tl cs)) \<le> length cs"
    by (rule le_trans[OF length_dropWhile_le]) simp
  have u: "length (dropWhile is_digit cs) \<le> length cs"
    by (rule length_dropWhile_le)
  from a Cons t u show ?thesis
    by (auto simp: lex_exponent_def Let_def split: if_splits)
qed

lemma lex_number_shorter:
  assumes "lex_number s = Some (n, r)"
  shows "length r < length s"
proof -
  define s1 where "s1 = (if (case s of [] \<Rightarrow> False | c # _ \<Rightarrow> c = 45) then tl s else s)"
  from assms obtain fp s2 ex where
    ip: "takeWhile is_digit s1 \<noteq> []" and
    fr: "lex_fraction (dropWhile is_digit s1) = Some (fp, s2)" and
    ex: "lex_exponent s2 = Some (ex, r)"
    by (auto simp: lex_number_def Let_def s1_def split: if_splits option.splits)
  have "length (takeWhile is_digit s1) + length (dropWhile is_digit s1) = length s1"
    by (metis length_append takeWhile_dropWhile_id)
  with ip have "length (dropWhile is_digit s1) < length s1"
    by (cases "takeWhile is_digit s1") auto
  moreover have "length s1 \<le> length s"
    by (simp add: s1_def)
  ultimately show ?thesis
    using lex_fraction_shorter[OF fr] lex_exponent_shorter[OF ex] by linarith
qed

text \<open>White space between tokens is space, TAB, LF and CR.\<close>

function tokenize :: "js_string \<Rightarrow> token list option" where
  "tokenize [] = Some []"
| "tokenize (c # cs) =
     (if c = 32 \<or> c = 9 \<or> c = 10 \<or> c = 13 then tokenize cs
      else if c = 123 then map_option (Cons TLBrace) (tokenize cs)
      else if c = 125 then map_option (Cons TRBrace) (tokenize cs)
      else if c = 91 then map_option (Cons TLBracket) (tokenize cs)
      else if c = 93 then map_option (Cons TRBracket) (tokenize cs)
      else if c = 58 then map_option (Cons TColon) (tokenize cs)
      else if c = 44 then map_option (Cons TComma) (tokenize cs)
      else if c = 34 then
        (case lex_string cs of
           None \<Rightarrow> None
         | Some (v, r) \<Rightarrow> map_option (Cons (TString v)) (tokenize r))
      else if c = 45 \<or> is_digit c then
        (case lex_number (c # cs) of
           None \<Rightarrow> None
         | Some ((m, e), r) \<Rightarrow> map_option (Cons (TNumber m e)) (tokenize r))
      else if startsWith (c # cs) (str ''true'') then
        map_option (Cons TTrue) (tokenize (drop 3 cs))
      else if startsWith (c # cs) (str ''false'') then
        map_option (Cons TFalse) (tokenize (drop 4 cs))
      else if startsWith (c # cs) (str ''null'') then
        map_option (Cons TNull) (tokenize (drop 3 cs))
      else None)"
  by pat_completeness auto
termination
  by (relation "measure length")
    (auto dest!: lex_string_shorter lex_number_shorter)

text \<open>
  The grammar over tokens, as a machine with a stack of the containers that are open:
  an array with the elements read so far, or an object with the members read so far and
  the key whose value is being read.
\<close>

datatype frame = InArray "json list" | InObject "(js_string \<times> json) list" js_string

fun parse_value :: "frame list \<Rightarrow> token list \<Rightarrow> json option"
  and parse_after :: "json \<Rightarrow> frame list \<Rightarrow> token list \<Rightarrow> json option"
  and parse_key :: "(js_string \<times> json) list \<Rightarrow> frame list \<Rightarrow> token list \<Rightarrow> json option"
where
  "parse_value st (TString s # ts) = parse_after (JString s) st ts"
| "parse_value st (TNumber m e # ts) = parse_after (JNumber m e) st ts"
| "parse_value st (TTrue # ts) = parse_after (JBool True) st ts"
| "parse_value st (TFalse # ts) = parse_after (JBool False) st ts"
| "parse_value st (TNull # ts) = parse_after JNull st ts"
| "parse_value st (TLBracket # TRBracket # ts) = parse_after (JArray []) st ts"
| "parse_value st (TLBracket # ts) = parse_value (InArray [] # st) ts"
| "parse_value st (TLBrace # TRBrace # ts) = parse_after (JObject []) st ts"
| "parse_value st (TLBrace # ts) = parse_key [] st ts"
| "parse_value st _ = None"
| "parse_after v [] [] = Some v"
| "parse_after v (InArray vs # st) (TComma # ts) = parse_value (InArray (vs @ [v]) # st) ts"
| "parse_after v (InArray vs # st) (TRBracket # ts) = parse_after (JArray (vs @ [v])) st ts"
| "parse_after v (InObject ms k # st) (TComma # ts) = parse_key (ms @ [(k, v)]) st ts"
| "parse_after v (InObject ms k # st) (TRBrace # ts) =
     parse_after (JObject (ms @ [(k, v)])) st ts"
| "parse_after v st ts = None"
| "parse_key ms st (TString k # TColon # ts) = parse_value (InObject ms k # st) ts"
| "parse_key ms st ts = None"

definition json_parse :: "js_string \<Rightarrow> json option" where
  "json_parse s = (case tokenize s of None \<Rightarrow> None | Some ts \<Rightarrow> parse_value [] ts)"

section \<open>Values at run time\<close>

text \<open>
  What the language leaves to the engine and the platform is a parameter of the model:
  the message of the \<^verbatim>\<open>SyntaxError\<close> that \<^verbatim>\<open>JSON.parse\<close> throws on a text, the messages of
  the \<^verbatim>\<open>TypeError\<close>s, the digits \<^verbatim>\<open>ToString\<close> prints for a number, which strings \<^verbatim>\<open>Date\<close>
  can parse, \<^verbatim>\<open>path.basename\<close>, which arrays are nested too deep for the call stack when they
  are converted to a string, and what the engine writes for an exception nobody catches.
  Limits of memory are not modelled.
\<close>

datatype fault = NullProperty js_string | NotCallable | NotPrimitive

datatype exn = SyntaxError js_string | TypeError js_string | RangeError js_string

fun message :: "exn \<Rightarrow> js_string" where
  "message (SyntaxError m) = m"
| "message (TypeError m) = m"
| "message (RangeError m) = m"

record engine =
  syntax_message :: "js_string \<Rightarrow> js_string"
  type_message :: "fault \<Rightarrow> js_string"
  number_to_string :: "int \<Rightarrow> int \<Rightarrow> js_string"
  date_parse :: "js_string \<Rightarrow> bool"
  basename :: "js_string \<Rightarrow> js_string"
  too_deep :: "json \<Rightarrow> bool"
  range_message :: js_string
  uncaught_report :: "exn \<Rightarrow> js_string"

text \<open>
  A number is falsy when its double is zero: the decimal is zero, or it rounds to zero,
  which round-to-nearest-even does up to and including \<open>2 ^ -1075\<close>.
\<close>

definition number_is_zero :: "int \<Rightarrow> int \<Rightarrow> bool" where
  "number_is_zero m e \<longleftrightarrow> m = 0 \<or> (e < 0 \<and> \<bar>m\<bar> * 2 ^ 1075 \<le> 10 ^ nat (- e))"

fun truthy :: "json \<Rightarrow> bool" where
  "truthy JNull = False"
| "truthy (JBool b) = b"
| "truthy (JNumber m e) = (\<not> number_is_zero m e)"
| "truthy (JString s) = (s \<noteq> [])"
| "truthy (JArray vs) = True"
| "truthy (JObject ms) = True"

text \<open>A property that is not there reads as \<^verbatim>\<open>undefined\<close>, here \<open>None\<close>, which is falsy.\<close>

fun is_truthy :: "json option \<Rightarrow> bool" where
  "is_truthy None = False"
| "is_truthy (Some v) = truthy v"

text \<open>
  \<^verbatim>\<open>metadata[field]\<close> for the property names the validator reads. Reading a property of
  \<^verbatim>\<open>null\<close> throws. An object parsed from JSON has its members as own properties, the last
  one of a repeated key, and inherits none of these names; a string, a number, a boolean
  and an array have none of them either.
\<close>

fun own_property :: "json \<Rightarrow> js_string \<Rightarrow> json option" where
  "own_property (JObject ms) k = map_of (rev ms) k"
| "own_property v k = None"

definition get_field :: "engine \<Rightarrow> json \<Rightarrow> js_string \<Rightarrow> exn + json option" where
  "get_field E v k =
     (if v = JNull then Inl (TypeError (type_message E (NullProperty k)))
      else Inr (own_property v k))"

fun collect :: "('e + 'a) list \<Rightarrow> 'e + 'a list" where
  "collect [] = Inr []"
| "collect (Inl x # rs) = Inl x"
| "collect (Inr a # rs) = (case collect rs of Inl x \<Rightarrow> Inl x | Inr as \<Rightarrow> Inr (a # as))"

text \<open>
  \<^verbatim>\<open>ToString\<close>, as a template literal and \<^verbatim>\<open>RegExp.prototype.test\<close> apply it. An array
  joins its elements with a comma, \<^verbatim>\<open>null\<close> printing as the empty string. An object
  prints as \<^verbatim>\<open>[object Object]\<close> unless it has a member named \<^verbatim>\<open>toString\<close>: a member is
  never callable, the inherited \<^verbatim>\<open>valueOf\<close> returns the object, and the conversion throws.
  \<^verbatim>\<open>join\<close> calls itself for an array inside an array: on one nested too deep for the
  call stack of the engine it throws a \<^verbatim>\<open>RangeError\<close>.
\<close>

fun to_string :: "engine \<Rightarrow> json \<Rightarrow> exn + js_string" where
  "to_string E JNull = Inr (str ''null'')"
| "to_string E (JBool b) = Inr (if b then str ''true'' else str ''false'')"
| "to_string E (JNumber m e) = Inr (number_to_string E m e)"
| "to_string E (JString s) = Inr s"
| "to_string E (JArray vs) =
     (if too_deep E (JArray vs) then Inl (RangeError (range_message E))
      else
        (case collect (map (\<lambda>v. if v = JNull then Inr [] else to_string E v) vs) of
           Inl x \<Rightarrow> Inl x
         | Inr ss \<Rightarrow> Inr (join (str '','') ss)))"
| "to_string E (JObject ms) =
     (if str ''toString'' \<in> fst ` set ms then Inl (TypeError (type_message E NotPrimitive))
      else Inr (str ''[object Object]''))"

fun to_string_opt :: "engine \<Rightarrow> json option \<Rightarrow> exn + js_string" where
  "to_string_opt E None = Inr (str ''undefined'')"
| "to_string_opt E (Some v) = to_string E v"

text \<open>
  Whether \<^verbatim>\<open>new Date(v).getTime()\<close> is a number. A string is parsed by the engine; a number
  is a time value when its double is at most \<open>8.64e15\<close> in magnitude, that is when the
  decimal is at most \<open>8640000000000000.5\<close>; \<^verbatim>\<open>true\<close>, \<^verbatim>\<open>false\<close> and \<^verbatim>\<open>null\<close> convert to 1, 0
  and 0; an array or an object is converted to a string first.
\<close>

definition time_clip_ok :: "int \<Rightarrow> int \<Rightarrow> bool" where
  "time_clip_ok m e \<longleftrightarrow>
     (if 0 \<le> e then 2 * \<bar>m\<bar> * 10 ^ nat e \<le> 17280000000000001
      else 2 * \<bar>m\<bar> \<le> 17280000000000001 * 10 ^ nat (- e))"

fun date_valid :: "engine \<Rightarrow> json \<Rightarrow> exn + bool" where
  "date_valid E (JString s) = Inr (date_parse E s)"
| "date_valid E (JNumber m e) = Inr (time_clip_ok m e)"
| "date_valid E (JBool b) = Inr True"
| "date_valid E JNull = Inr True"
| "date_valid E v =
     (case to_string E v of Inl x \<Rightarrow> Inl x | Inr s \<Rightarrow> Inr (date_parse E s))"

fun date_valid_opt :: "engine \<Rightarrow> json option \<Rightarrow> exn + bool" where
  "date_valid_opt E None = Inr False"
| "date_valid_opt E (Some v) = date_valid E v"

section \<open>The validator\<close>

definition REQUIRED_BLOCKS :: "js_string list" where
  "REQUIRED_BLOCKS = [str ''hc-metadata'', str ''hc-instructions'', str ''hc-human-docs'']"

definition VALID_TYPES :: "js_string list" where
  "VALID_TYPES =
     [str ''registry'', str ''skill'', str ''artifact'', str ''identity'', str ''framework'']"

definition REQUIRED_METADATA_FIELDS :: "js_string list" where
  "REQUIRED_METADATA_FIELDS =
     [str ''hc_version'', str ''hc_type'', str ''artifact_id'', str ''version'',
      str ''created'', str ''updated'', str ''summary'']"

record findings =
  errors :: "js_string list"
  warnings :: "js_string list"

definition no_findings :: findings where
  "no_findings = \<lparr>errors = [], warnings = []\<rparr>"

definition push_error :: "js_string \<Rightarrow> findings \<Rightarrow> findings" where
  "push_error m f = f\<lparr>errors := errors f @ [m]\<rparr>"

definition push_warning :: "js_string \<Rightarrow> findings \<Rightarrow> findings" where
  "push_warning m f = f\<lparr>warnings := warnings f @ [m]\<rparr>"

subsection \<open>Doctype and required blocks\<close>

definition doctype_check :: "js_string \<Rightarrow> findings \<Rightarrow> findings" where
  "doctype_check content f =
     (if \<not> startsWith (toLowerCase (trim content)) (str ''<!doctype html>'')
      then push_error (str ''Missing HTML5 doctype (<!DOCTYPE html>)'') f
      else f)"

definition block_attribute :: "js_string \<Rightarrow> js_string" where
  \<open>block_attribute blockId = str ''id="'' @ blockId @ str ''"''\<close>

definition missing_block :: "js_string \<Rightarrow> js_string" where
  "missing_block blockId = str ''Missing required block: #'' @ blockId"

fun blocks_check :: "js_string list \<Rightarrow> js_string \<Rightarrow> findings \<Rightarrow> findings" where
  "blocks_check [] content f = f"
| "blocks_check (blockId # rest) content f =
     blocks_check rest content
       (if \<not> js_includes content (block_attribute blockId)
        then push_error (missing_block blockId) f
        else f)"

subsection \<open>The patterns\<close>

text \<open>\<^verbatim>\<open>/<script[^>]*id="hc-metadata"[^>]*>([\s\S]*?)<\/script>/\<close>; the group is item 5.\<close>

definition metadata_re :: "item list" where
  \<open>metadata_re =
     [Lit (str ''<script''), Star (NotUnit 62), Lit (str ''id="hc-metadata"''),
      Star (NotUnit 62), Lit (str ''>''), LazyStar AnyUnit, Lit (str ''</script>'')]\<close>

text \<open>\<^verbatim>\<open>/<script[^>]*id="hc-instructions"[^>]*>([\s\S]*?)<\/script>/\<close>\<close>

definition instructions_re :: "item list" where
  \<open>instructions_re =
     [Lit (str ''<script''), Star (NotUnit 62), Lit (str ''id="hc-instructions"''),
      Star (NotUnit 62), Lit (str ''>''), LazyStar AnyUnit, Lit (str ''</script>'')]\<close>

text \<open>\<^verbatim>\<open>/<div[^>]*id="hc-human-docs"[^>]*>([\s\S]*?)<\/div>/\<close>\<close>

definition human_docs_re :: "item list" where
  \<open>human_docs_re =
     [Lit (str ''<div''), Star (NotUnit 62), Lit (str ''id="hc-human-docs"''),
      Star (NotUnit 62), Lit (str ''>''), LazyStar AnyUnit, Lit (str ''</div>'')]\<close>

text \<open>
  \<^verbatim>\<open>/^hc-(registry|skill|artifact|identity|framework)-[a-z0-9-]+-\d+$/\<close>, matched from the
  start of the string.
\<close>

definition idPattern :: "item list" where
  "idPattern =
     [Lit (str ''hc-''),
      Alt [str ''registry'', str ''skill'', str ''artifact'', str ''identity'', str ''framework''],
      Lit (str ''-''), Plus SlugUnit, Lit (str ''-''), Plus Digit, End]"

text \<open>
  \<^verbatim>\<open>m[1]\<close> for the result \<open>m\<close> of \<^verbatim>\<open>match\<close>: reading a property of \<^verbatim>\<open>null\<close> throws; of a match
  of one of the three block patterns it is the text of the group.
\<close>

definition group1 :: "engine \<Rightarrow> js_string list option \<Rightarrow> exn + js_string" where
  "group1 E m =
     (case m of
        None \<Rightarrow> Inl (TypeError (type_message E (NullProperty (str ''1''))))
      | Some caps \<Rightarrow> Inr (caps ! 5))"

text \<open>The text of a block, when its pattern matches.\<close>

definition block_match :: "item list \<Rightarrow> js_string \<Rightarrow> js_string option" where
  "block_match re content = map_option (\<lambda>caps. caps ! 5) (rsearch re content)"

subsection \<open>The metadata fields\<close>

text \<open>
  The body of the \<^verbatim>\<open>try\<close> block runs the checks in order. A check that throws stops the
  body; the findings pushed before stay in the lists, so a result is the exception, if
  any, and the findings at that point.
\<close>

type_synonym checked = "exn option \<times> findings"

fun and_then :: "checked \<Rightarrow> (findings \<Rightarrow> checked) \<Rightarrow> checked" where
  "and_then (None, f) k = k f"
| "and_then (Some x, f) k = (Some x, f)"

definition missing_field :: "js_string \<Rightarrow> js_string" where
  "missing_field field = str ''Missing required metadata field: '' @ field"

fun check_required :: "engine \<Rightarrow> json \<Rightarrow> js_string list \<Rightarrow> findings \<Rightarrow> checked" where
  "check_required E metadata [] f = (None, f)"
| "check_required E metadata (field # rest) f =
     (case get_field E metadata field of
        Inl x \<Rightarrow> (Some x, f)
      | Inr v \<Rightarrow>
          check_required E metadata rest
            (if \<not> is_truthy v then push_error (missing_field field) f else f))"

definition version_warning :: "js_string \<Rightarrow> js_string" where
  \<open>version_warning found = str ''hc_version should be "1.1", found "'' @ found @ str ''"''\<close>

definition check_version :: "engine \<Rightarrow> json \<Rightarrow> findings \<Rightarrow> checked" where
  "check_version E metadata f =
     (case get_field E metadata (str ''hc_version'') of
        Inl x \<Rightarrow> (Some x, f)
      | Inr v \<Rightarrow>
          if is_truthy v \<and> v \<noteq> Some (JString (str ''1.1'')) then
            (case to_string_opt E v of
               Inl x \<Rightarrow> (Some x, f)
             | Inr s \<Rightarrow> (None, push_warning (version_warning s) f))
          else (None, f))"

text \<open>\<^verbatim>\<open>VALID_TYPES.includes(v)\<close>: only a string is equal to a string.\<close>

fun array_includes :: "js_string list \<Rightarrow> json option \<Rightarrow> bool" where
  "array_includes xs (Some (JString s)) = (s \<in> set xs)"
| "array_includes xs v = False"

definition invalid_type :: "js_string \<Rightarrow> js_string" where
  "invalid_type found =
     str ''Invalid hc_type: '' @ found @ str ''. Must be one of: '' @
     join (str '', '') VALID_TYPES"

definition check_type :: "engine \<Rightarrow> json \<Rightarrow> findings \<Rightarrow> checked" where
  "check_type E metadata f =
     (case get_field E metadata (str ''hc_type'') of
        Inl x \<Rightarrow> (Some x, f)
      | Inr v \<Rightarrow>
          if is_truthy v \<and> \<not> array_includes VALID_TYPES v then
            (case to_string_opt E v of
               Inl x \<Rightarrow> (Some x, f)
             | Inr s \<Rightarrow> (None, push_error (invalid_type s) f))
          else (None, f))"

definition check_artifact_id :: "engine \<Rightarrow> json \<Rightarrow> findings \<Rightarrow> checked" where
  "check_artifact_id E metadata f =
     (case get_field E metadata (str ''artifact_id'') of
        Inl x \<Rightarrow> (Some x, f)
      | Inr v \<Rightarrow>
          if is_truthy v then
            (case to_string_opt E v of
               Inl x \<Rightarrow> (Some x, f)
             | Inr s \<Rightarrow>
                 if rmatch idPattern s = None then
                   (None, push_warning
                      (str ''artifact_id format should be: hc-[type]-[slug]-[timestamp]'') f)
                 else (None, f))
          else (None, f))"

definition invalid_timestamp :: "js_string \<Rightarrow> js_string \<Rightarrow> js_string" where
  "invalid_timestamp tsField found =
     str ''Invalid '' @ tsField @ str '' timestamp: '' @ found"

fun check_timestamps :: "engine \<Rightarrow> json \<Rightarrow> js_string list \<Rightarrow> findings \<Rightarrow> checked" where
  "check_timestamps E metadata [] f = (None, f)"
| "check_timestamps E metadata (tsField # rest) f =
     (case get_field E metadata tsField of
        Inl x \<Rightarrow> (Some x, f)
      | Inr v \<Rightarrow>
          if is_truthy v then
            (case date_valid_opt E v of
               Inl x \<Rightarrow> (Some x, f)
             | Inr ok \<Rightarrow>
                 if \<not> ok then
                   (case to_string_opt E v of
                      Inl x \<Rightarrow> (Some x, f)
                    | Inr s \<Rightarrow>
                        check_timestamps E metadata rest
                          (push_error (invalid_timestamp tsField s) f))
                 else check_timestamps E metadata rest f)
          else check_timestamps E metadata rest f)"

definition short_summary :: "nat \<Rightarrow> js_string" where
  "short_summary wordCount =
     str ''Summary seems short ('' @ show_nat wordCount @
     str '' words). Aim for 50-100 tokens.''"

text \<open>
  \<^verbatim>\<open>metadata.summary.split(/\s+/)\<close>: only a string has a \<^verbatim>\<open>split\<close> that can be called.
\<close>

definition check_summary :: "engine \<Rightarrow> json \<Rightarrow> findings \<Rightarrow> checked" where
  "check_summary E metadata f =
     (case get_field E metadata (str ''summary'') of
        Inl x \<Rightarrow> (Some x, f)
      | Inr v \<Rightarrow>
          if is_truthy v then
            (case v of
               Some (JString s) \<Rightarrow>
                 (let wordCount = length (split_ws s)
                  in if wordCount < 10 then (None, push_warning (short_summary wordCount) f)
                     else (None, f))
             | _ \<Rightarrow> (Some (TypeError (type_message E NotCallable)), f))
          else (None, f))"

definition check_fields :: "engine \<Rightarrow> json \<Rightarrow> findings \<Rightarrow> checked" where
  "check_fields E metadata f =
     and_then (check_required E metadata REQUIRED_METADATA_FIELDS f) (\<lambda>f.
     and_then (check_version E metadata f) (\<lambda>f.
     and_then (check_type E metadata f) (\<lambda>f.
     and_then (check_artifact_id E metadata f) (\<lambda>f.
     and_then (check_timestamps E metadata [str ''created'', str ''updated''] f) (\<lambda>f.
     check_summary E metadata f)))))"

definition try_metadata :: "engine \<Rightarrow> js_string \<Rightarrow> findings \<Rightarrow> checked" where
  "try_metadata E text f =
     (case json_parse text of
        None \<Rightarrow> (Some (SyntaxError (syntax_message E text)), f)
      | Some metadata \<Rightarrow> check_fields E metadata f)"

definition invalid_json :: "js_string \<Rightarrow> js_string" where
  "invalid_json msg = str ''Invalid JSON in hc-metadata: '' @ msg"

text \<open>The \<^verbatim>\<open>try\<close> block: the group of the match is read, then parsed and checked.\<close>

definition try_block :: "engine \<Rightarrow> js_string list option \<Rightarrow> findings \<Rightarrow> checked" where
  "try_block E metadataMatch f =
     (case group1 E metadataMatch of
        Inl x \<Rightarrow> (Some x, f)
      | Inr text \<Rightarrow> try_metadata E text f)"

text \<open>The handler takes whatever the block threw and pushes one error.\<close>

fun catch_metadata :: "checked \<Rightarrow> checked" where
  "catch_metadata (None, f) = (None, f)"
| "catch_metadata (Some e, f) = (None, push_error (invalid_json (message e)) f)"

definition metadata_check :: "engine \<Rightarrow> js_string \<Rightarrow> findings \<Rightarrow> checked" where
  "metadata_check E content f =
     (let metadataMatch = rsearch metadata_re content
      in if metadataMatch \<noteq> None then catch_metadata (try_block E metadataMatch f)
         else (None, f))"

subsection \<open>Instructions and human documentation\<close>

definition instructions_findings :: "js_string \<Rightarrow> findings \<Rightarrow> findings" where
  "instructions_findings text f =
     (let instructions = trim text;
          f1 = (if length instructions < 100
                then push_warning
                       (str ''hc-instructions seems very short. Include detailed steps.'') f
                else f)
      in if \<not> js_includes instructions (str ''Step'')
         then push_warning (str ''hc-instructions should include numbered steps'') f1
         else f1)"

definition instructions_check :: "engine \<Rightarrow> js_string \<Rightarrow> findings \<Rightarrow> checked" where
  "instructions_check E content f =
     (let instructionsMatch = rsearch instructions_re content
      in if instructionsMatch \<noteq> None then
           (case group1 E instructionsMatch of
              Inl x \<Rightarrow> (Some x, f)
            | Inr text \<Rightarrow> (None, instructions_findings text f))
         else (None, f))"

definition human_docs_findings :: "js_string \<Rightarrow> findings \<Rightarrow> findings" where
  "human_docs_findings text f =
     (if length (trim text) < 200
      then push_warning
             (str ''hc-human-docs seems very short. Include comprehensive documentation.'') f
      else f)"

definition human_docs_check :: "engine \<Rightarrow> js_string \<Rightarrow> findings \<Rightarrow> checked" where
  "human_docs_check E content f =
     (let humanDocsMatch = rsearch human_docs_re content
      in if humanDocsMatch \<noteq> None then
           (case group1 E humanDocsMatch of
              Inl x \<Rightarrow> (Some x, f)
            | Inr text \<Rightarrow> (None, human_docs_findings text f))
         else (None, f))"

subsection \<open>One document\<close>

text \<open>
  Lines 29 to 114: the checks in order. An exception that leaves a check leaves
  \<^verbatim>\<open>validate\<close> with the findings never reported.
\<close>

definition check_content :: "engine \<Rightarrow> js_string \<Rightarrow> checked" where
  "check_content E content =
     and_then (metadata_check E content
        (blocks_check REQUIRED_BLOCKS content
           (doctype_check content \<lparr>errors = [], warnings = []\<rparr>))) (\<lambda>f.
     and_then (instructions_check E content f) (\<lambda>f.
     human_docs_check E content f))"

text \<open>The two lists as they are when the checks end.\<close>

definition check_document :: "engine \<Rightarrow> js_string \<Rightarrow> findings" where
  "check_document E content = snd (check_content E content)"

text \<open>
  The console is the list of the lines written so far, \<^verbatim>\<open>console.log\<close> and
  \<^verbatim>\<open>console.error\<close> apart. A call returns, ends the process with \<^verbatim>\<open>process.exit\<close>, or
  throws. The file system maps a path to the text of the file, or to the message
  of the error \<^verbatim>\<open>readFileSync\<close> throws.
\<close>

datatype line = Log js_string | LogError js_string

datatype 'a control = Return 'a | Exit nat | Throw exn

type_synonym file_system = "js_string \<Rightarrow> js_string + js_string"

definition report_header :: "engine \<Rightarrow> js_string \<Rightarrow> line" where
  "report_header E filePath = Log ([10] @ str ''Validating: '' @ basename E filePath @ [10])"

definition report_summary :: "findings \<Rightarrow> line" where
  "report_summary f =
     Log ([10] @ str ''Summary: '' @ show_nat (length (errors f)) @ str '' error(s), '' @
          show_nat (length (warnings f)) @ str '' warning(s)'')"

definition bullet :: "js_string \<Rightarrow> line" where
  "bullet m = Log (str ''   - '' @ m)"

definition report :: "engine \<Rightarrow> js_string \<Rightarrow> findings \<Rightarrow> line list" where
  "report E filePath f =
     (if errors f = [] \<and> warnings f = [] then
        [report_header E filePath, Log ([9989] @ str '' Valid HC file!'')]
      else
        [report_header E filePath] @
        (if errors f \<noteq> [] then Log ([10060] @ str '' Errors:'') # map bullet (errors f)
         else []) @
        (if warnings f \<noteq> []
         then Log ([10, 9888, 65039] @ str ''  Warnings:'') # map bullet (warnings f)
         else []) @
        [report_summary f])"

definition verdict :: "findings \<Rightarrow> nat" where
  "verdict f = (if errors f = [] \<and> warnings f = [] then 0
                else if 0 < length (errors f) then 1 else 0)"

definition validate ::
  "engine \<Rightarrow> file_system \<Rightarrow> js_string \<Rightarrow> line list \<Rightarrow> nat control \<times> line list" where
  "validate E fs filePath console =
     (case fs filePath of
        Inl msg \<Rightarrow> (Exit 1, console @ [LogError (str ''Error reading file: '' @ msg)])
      | Inr content \<Rightarrow>
          (case check_content E content of
             (Some x, f) \<Rightarrow> (Throw x, console)
           | (None, f) \<Rightarrow> (Return (verdict f), console @ report E filePath f)))"

subsection \<open>The batch\<close>

fun validate_all ::
  "engine \<Rightarrow> file_system \<Rightarrow> js_string list \<Rightarrow> nat \<Rightarrow> line list \<Rightarrow> nat \<times> line list" where
  "validate_all E fs [] exitCode console = (exitCode, console)"
| "validate_all E fs (arg # rest) exitCode console =
     (case validate E fs arg console of
        (Exit code, console') \<Rightarrow> (code, console')
      | (Throw x, console') \<Rightarrow> (1, console' @ [LogError (uncaught_report E x)])
      | (Return result, console') \<Rightarrow>
          validate_all E fs rest (if result \<noteq> 0 then result else exitCode) console')"

text \<open>
  The program: the exit status of the process and what it wrote. An exception nobody
  catches ends the process with status 1 after the engine has written its report of it.
\<close>

definition main :: "engine \<Rightarrow> file_system \<Rightarrow> js_string list \<Rightarrow> nat \<times> line list" where
  "main E fs args =
     (if length args = 0 then
        (1, [Log (str ''Usage: node validate.js <file.html>''),
             Log (str ''       node validate.js examples/*.html'')])
      else validate_all E fs args 0 [])"

text \<open>For a path the file system can read: the findings of its document and its report.\<close>

definition readable :: "file_system \<Rightarrow> js_string \<Rightarrow> bool" where
  "readable fs filePath = (case fs filePath of Inl msg \<Rightarrow> False | Inr content \<Rightarrow> True)"

definition document_findings :: "engine \<Rightarrow> file_system \<Rightarrow> js_string \<Rightarrow> findings" where
  "document_findings E fs filePath =
     (case fs filePath of Inl msg \<Rightarrow> no_findings | Inr content \<Rightarrow> check_document E content)"

definition document_report :: "engine \<Rightarrow> file_system \<Rightarrow> js_string \<Rightarrow> line list" where
  "document_report E fs filePath = report E filePath (document_findings E fs filePath)"

section \<open>Example inputs\<close>

text \<open>The depth to which arrays are nested in a value.\<close>

fun nesting :: "json \<Rightarrow> nat" where
  "nesting (JArray vs) = Suc (foldr max (map nesting vs) 0)"
| "nesting v = 0"

text \<open>
  An engine for the examples. Its messages are those Node writes for the inputs of the
  examples, it prints the natural numbers, it parses the one date the examples use, and
  its call stack holds a thousand nested arrays.
\<close>

definition node_engine :: engine where
  "node_engine =
     \<lparr>syntax_message = (\<lambda>t. str ''Unexpected end of JSON input''),
      type_message = (\<lambda>fl. case fl of
          NullProperty k \<Rightarrow> str ''Cannot read properties of null (reading '' @ [39] @ k @ [39] @ str '')''
        | NotCallable \<Rightarrow> str ''metadata.summary.split is not a function''
        | NotPrimitive \<Rightarrow> str ''Cannot convert object to primitive value''),
      number_to_string = (\<lambda>m e. if 0 \<le> m \<and> e = 0 then show_nat (nat m) else str ''NaN''),
      date_parse = (\<lambda>s. s = str ''2024-02-08''),
      basename = (\<lambda>p. p),
      too_deep = (\<lambda>v. 1000 < nesting v),
      range_message = str ''Maximum call stack size exceeded'',
      uncaught_report = message\<rparr>"

text \<open>A document with the doctype and the three blocks around a given metadata text.\<close>

definition page :: "js_string \<Rightarrow> js_string" where
  \<open>page meta =
     str ''<!DOCTYPE html><script id="hc-metadata">'' @ meta @
     str ''</script><script id="hc-instructions"></script><div id="hc-human-docs"></div>''\<close>

text \<open>Metadata that passes every check but for the given text of the \<^verbatim>\<open>hc_type\<close> value.\<close>

definition type_meta :: "js_string \<Rightarrow> js_string" where
  \<open>type_meta t =
     str ''{"hc_version":"1.1","hc_type":'' @ t @
     str '',"artifact_id":"hc-skill-a-1","version":"1",'' @
     str ''"created":"2024-02-08","updated":"2024-02-08","summary":"a b c d e f g h i j"}''\<close>

definition good_meta :: js_string where
  \<open>good_meta = type_meta (str ''"skill"'')\<close>

definition nine_meta :: js_string where
  \<open>nine_meta = str ''{"summary":"a b c d e f g h i"}''\<close>

definition hidden_summary :: js_string where
  \<open>hidden_summary = str ''{"artifact_id":{"toString":1},"summary":"a b c d e f g h i"}''\<close>

definition example_fs :: file_system where
  "example_fs filePath =
     (if filePath = str ''ok.html'' then Inr (page good_meta)
      else if filePath = str ''bare.html'' then Inr (str ''<!doctype html>'')
      else if filePath = str ''null.html'' then Inr (page (str ''null''))
      else Inl (str ''ENOENT: no such file or directory''))"

section \<open>Facts about strings and patterns\<close>

lemma startsWith_iff: "startsWith s p \<longleftrightarrow> (\<exists>r. s = p @ r)"
  by (induction s p rule: startsWith.induct) auto

lemma js_includes_iff: "js_includes s p \<longleftrightarrow> (\<exists>a b. s = a @ p @ b)"
proof (induction s)
  case Nil
  then show ?case by (auto simp: startsWith_iff)
next
  case (Cons c cs)
  show ?case
  proof
    assume "js_includes (c # cs) p"
    then consider "startsWith (c # cs) p" | "js_includes cs p" by auto
    then show "\<exists>a b. c # cs = a @ p @ b"
    proof cases
      case 1
      then obtain r where "c # cs = p @ r" by (auto simp: startsWith_iff)
      then have "c # cs = [] @ p @ r" by simp
      then show ?thesis by blast
    next
      case 2
      with Cons obtain a b where "cs = a @ p @ b" by auto
      then have "c # cs = (c # a) @ p @ b" by simp
      then show ?thesis by blast
    qed
  next
    assume "\<exists>a b. c # cs = a @ p @ b"
    then obtain a b where ab: "c # cs = a @ p @ b" by auto
    show "js_includes (c # cs) p"
    proof (cases a)
      case Nil
      with ab have "startsWith (c # cs) p" by (auto simp: startsWith_iff)
      then show ?thesis by simp
    next
      case (Cons x a')
      with ab have "cs = a' @ p @ b" by simp
      with Cons.IH show ?thesis by auto
    qed
  qed
qed

text \<open>What a match returns: one text for each item, a literal's being the literal.\<close>

fun fits :: "item \<Rightarrow> js_string \<Rightarrow> bool" where
  "fits (Lit l) c = (c = l)"
| "fits i c = True"

lemma fits_extend:
  "list_all2 fits (i # r) caps \<Longrightarrow> \<forall>l. i \<noteq> Lit l \<Longrightarrow> list_all2 fits (i # r) (prepend_unit x caps)"
  by (cases caps; cases i) auto

lemma concat_extend: "caps \<noteq> [] \<Longrightarrow> concat (prepend_unit x caps) = x # concat caps"
  by (cases caps) auto

lemma rmatch_fits:
  "rmatch r s = Some caps \<Longrightarrow> list_all2 fits r caps \<and> (\<exists>rest. s = concat caps @ rest)"
proof (induction r s arbitrary: caps rule: rmatch.induct)
  case (1 s)
  then show ?case by simp
next
  case (2 l r s)
  from "2.prems" obtain caps' where st: "startsWith s l"
    and rec: "rmatch r (drop (length l) s) = Some caps'" and caps: "caps = l # caps'"
    by (auto split: if_splits)
  from st obtain t where s: "s = l @ t" by (auto simp: startsWith_iff)
  from "2.IH"[OF st rec] s caps show ?case by auto
next
  case (3 k r)
  then show ?case by auto
next
  case (4 k r x xs)
  show ?case
  proof (cases "in_class k x \<and> rmatch (Star k # r) xs \<noteq> None")
    case True
    then obtain caps' where rec: "rmatch (Star k # r) xs = Some caps'" and k: "in_class k x" by auto
    with "4.prems" have caps: "caps = prepend_unit x caps'" by simp
    from "4.IH"(1)[OF k rec] have a: "list_all2 fits (Star k # r) caps'"
      and b: "\<exists>rest. xs = concat caps' @ rest" by auto
    from a have ne: "caps' \<noteq> []" by auto
    from a have "list_all2 fits (Star k # r) (prepend_unit x caps')" by (rule fits_extend) simp
    with b caps ne show ?thesis by (auto simp: concat_extend)
  next
    case False
    with "4.prems" obtain caps' where rec: "rmatch r (x # xs) = Some caps'" and caps: "caps = [] # caps'"
      by (auto split: if_splits option.splits)
    show ?thesis
    proof (cases "in_class k x")
      case True
      with False have "rmatch (Star k # r) xs = None" by simp
      from "4.IH"(2)[OF True this rec] caps show ?thesis by auto
    next
      case False
      from "4.IH"(3)[OF False rec] caps show ?thesis by auto
    qed
  qed
next
  case (5 k r)
  then show ?case by auto
next
  case (6 k r x xs)
  show ?case
  proof (cases "rmatch r (x # xs)")
    case (Some caps')
    with "6.prems" have "caps = [] # caps'" by simp
    with "6.IH"(1)[OF Some] show ?thesis by auto
  next
    case None
    with "6.prems" obtain caps' where k: "in_class k x"
      and rec: "rmatch (LazyStar k # r) xs = Some caps'" and caps: "caps = prepend_unit x caps'"
      by (auto split: if_splits)
    from "6.IH"(2)[OF None k rec] have a: "list_all2 fits (LazyStar k # r) caps'"
      and b: "\<exists>rest. xs = concat caps' @ rest" by auto
    from a have ne: "caps' \<noteq> []" by auto
    from a have "list_all2 fits (LazyStar k # r) (prepend_unit x caps')" by (rule fits_extend) simp
    with b caps ne show ?thesis by (auto simp: concat_extend)
  qed
next
  case (7 k r)
  then show ?case by simp
next
  case (8 k r x xs)
  from "8.prems" obtain caps' where k: "in_class k x"
    and rec: "rmatch (Star k # r) xs = Some caps'" and caps: "caps = prepend_unit x caps'"
    by (auto split: if_splits)
  from "8.IH"[OF k rec] have a: "list_all2 fits (Star k # r) caps'"
    and b: "\<exists>rest. xs = concat caps' @ rest" by auto
  from a have ne: "caps' \<noteq> []" by auto
  from a have "list_all2 fits (Plus k # r) caps'" by (cases caps') auto
  then have "list_all2 fits (Plus k # r) (prepend_unit x caps')" by (rule fits_extend) simp
  with b caps ne show ?case by (auto simp: concat_extend)
next
  case (9 r s)
  then show ?case by simp
next
  case (10 l ls r s)
  show ?case
  proof (cases "rmatch (Lit l # r) s")
    case (Some caps')
    with "10.prems" have c: "caps = caps'" by simp
    from "10.IH"(1)[OF Some] have "list_all2 fits (Lit l # r) caps'"
      and b: "\<exists>rest. s = concat caps' @ rest" by auto
    then have "list_all2 fits (Alt (l # ls) # r) caps'" by (cases caps') auto
    with b c show ?thesis by simp
  next
    case None
    with "10.prems" have rec: "rmatch (Alt ls # r) s = Some caps" by simp
    from "10.IH"(2)[OF None rec] have "list_all2 fits (Alt ls # r) caps"
      and b: "\<exists>rest. s = concat caps @ rest" by auto
    then have "list_all2 fits (Alt (l # ls) # r) caps" by (cases caps) auto
    with b show ?thesis by simp
  qed
next
  case (11 r s)
  then show ?case by (auto split: if_splits)
qed

lemma rsearch_fits:
  "rsearch r s = Some caps \<Longrightarrow> list_all2 fits r caps \<and> (\<exists>a b. s = a @ concat caps @ b)"
proof (induction s)
  case Nil
  then show ?case using rmatch_fits[of r "[]" caps] by (metis append_Nil rsearch.simps(1))
next
  case (Cons x xs)
  show ?case
  proof (cases "rmatch r (x # xs)")
    case None
    with Cons.prems have "rsearch r xs = Some caps" by simp
    from Cons.IH[OF this] obtain a b where f: "list_all2 fits r caps" and "xs = a @ concat caps @ b" by auto
    then have "x # xs = (x # a) @ concat caps @ b" by simp
    with f show ?thesis by blast
  next
    case (Some caps')
    with Cons.prems have "rmatch r (x # xs) = Some caps" by simp
    from rmatch_fits[OF this] show ?thesis by (metis append_Nil)
  qed
qed

text \<open>
  A match has one text for each item of the pattern, so item 5 of a match of one of the
  three block patterns, which have seven items, is there.
\<close>

lemma rsearch_length: "rsearch r s = Some caps \<Longrightarrow> length caps = length r"
proof -
  assume "rsearch r s = Some caps"
  then have "list_all2 fits r caps" by (simp add: rsearch_fits)
  then show ?thesis by (simp add: list_all2_lengthD)
qed

lemma concat_nth_split:
  "i < length caps \<Longrightarrow> \<exists>a b. concat caps = a @ caps ! i @ b"
proof -
  assume "i < length caps"
  then have "caps = take i caps @ caps ! i # drop (Suc i) caps" by (rule id_take_nth_drop)
  then have "concat caps = concat (take i caps) @ caps ! i @ concat (drop (Suc i) caps)"
    by (metis concat.simps(2) concat_append)
  then show ?thesis by blast
qed

lemma rsearch_includes_literal:
  assumes "rsearch r s = Some caps" and "i < length r" and "r ! i = Lit l"
  shows "js_includes s l"
proof -
  from rsearch_fits[OF assms(1)] obtain a b where f: "list_all2 fits r caps"
    and s: "s = a @ concat caps @ b" by auto
  from f assms(2) have len: "i < length caps" by (simp add: list_all2_lengthD)
  from f assms(2,3) have "caps ! i = l" by (auto simp: list_all2_conv_all_nth)
  with concat_nth_split[OF len] obtain c d where "concat caps = c @ l @ d" by metis
  with s have "s = (a @ c) @ l @ (d @ b)" by simp
  then show ?thesis unfolding js_includes_iff by blast
qed

lemma metadata_match_includes:
  assumes "block_match metadata_re content = Some text"
  shows "js_includes content (block_attribute (str ''hc-metadata''))"
proof -
  from assms obtain caps where "rsearch metadata_re content = Some caps"
    by (auto simp: block_match_def)
  from rsearch_includes_literal[OF this, of 2] show ?thesis
    by (simp add: metadata_re_def block_attribute_def str_def)
qed



section \<open>Facts about the checks\<close>

lemmas json_eval = json_parse_def str_def is_digit_def hex_digit_def unescape_def hex4_def
  lex_number_def lex_fraction_def lex_exponent_def digits_value_def Let_def

lemmas field_eval = str_def check_document_def check_content_def doctype_check_def trim_def
  toLowerCase_def lower_unit_def is_space_def REQUIRED_BLOCKS_def block_attribute_def
  missing_block_def metadata_check_def try_block_def group1_def
  block_match_def metadata_re_def instructions_re_def human_docs_re_def try_metadata_def
  check_fields_def REQUIRED_METADATA_FIELDS_def get_field_def missing_field_def
  check_version_def check_type_def check_artifact_id_def check_summary_def
  VALID_TYPES_def idPattern_def invalid_type_def invalid_timestamp_def invalid_json_def
  short_summary_def version_warning_def split_ws_def instructions_check_def
  instructions_findings_def human_docs_check_def human_docs_findings_def
  push_error_def push_warning_def page_def Let_def

lemmas check_eval = field_eval node_engine_def

lemma findings_push [simp]:
  "errors (push_error m f) = errors f @ [m]" "warnings (push_error m f) = warnings f"
  "errors (push_warning m f) = errors f" "warnings (push_warning m f) = warnings f @ [m]"
  by (simp_all add: push_error_def push_warning_def)

text \<open>
  The guards of lines 43, 97 and 109 keep the reads of the group from \<^verbatim>\<open>null\<close>, and the
  handler of line 90 takes every exception of the \<^verbatim>\<open>try\<close> block: no check throws.
\<close>

lemma catch_metadata_returns [simp]: "fst (catch_metadata r) = None"
  by (cases r rule: catch_metadata.cases) simp_all

lemma metadata_check_value:
  "metadata_check E c f =
     (None, case block_match metadata_re c of
              None \<Rightarrow> f
            | Some src \<Rightarrow> snd (catch_metadata (try_metadata E src f)))"
proof (cases "rsearch metadata_re c")
  case None
  then show ?thesis by (simp add: metadata_check_def block_match_def)
next
  case (Some caps)
  have "catch_metadata (try_metadata E (caps ! 5) f) =
      (None, snd (catch_metadata (try_metadata E (caps ! 5) f)))"
    by (metis catch_metadata_returns prod.collapse)
  with Some show ?thesis
    by (simp add: metadata_check_def block_match_def try_block_def group1_def)
qed

lemma instructions_check_value:
  "instructions_check E c f =
     (None, case block_match instructions_re c of
              None \<Rightarrow> f
            | Some src \<Rightarrow> instructions_findings src f)"
  by (cases "rsearch instructions_re c")
    (simp_all add: instructions_check_def block_match_def group1_def)

lemma human_docs_check_value:
  "human_docs_check E c f =
     (None, case block_match human_docs_re c of
              None \<Rightarrow> f
            | Some src \<Rightarrow> human_docs_findings src f)"
  by (cases "rsearch human_docs_re c")
    (simp_all add: human_docs_check_def block_match_def group1_def)

lemma checks_return [simp]:
  "fst (metadata_check E c f) = None" "fst (instructions_check E c f) = None"
  "fst (human_docs_check E c f) = None"
  by (simp_all add: metadata_check_value instructions_check_value human_docs_check_value)

lemma and_then_returns: "fst r = None \<Longrightarrow> and_then r k = k (snd r)"
  by (cases r) simp

lemma check_content_value:
  "check_content E c =
     (None, snd (human_docs_check E c (snd (instructions_check E c
        (snd (metadata_check E c
           (blocks_check REQUIRED_BLOCKS c (doctype_check c no_findings))))))))"
proof -
  have "check_content E c =
      human_docs_check E c (snd (instructions_check E c
        (snd (metadata_check E c
           (blocks_check REQUIRED_BLOCKS c (doctype_check c no_findings))))))"
    by (simp add: check_content_def and_then_returns no_findings_def)
  then show ?thesis by (metis checks_return(3) prod.collapse)
qed

lemma check_document_value:
  "check_document E c =
     snd (human_docs_check E c (snd (instructions_check E c
        (snd (metadata_check E c
           (blocks_check REQUIRED_BLOCKS c (doctype_check c no_findings)))))))"
  by (simp add: check_document_def check_content_value)

lemma errors_instructions_check [simp]: "errors (snd (instructions_check E c f)) = errors f"
  by (simp add: instructions_check_value instructions_findings_def Let_def split: option.splits)

lemma errors_human_docs_check [simp]: "errors (snd (human_docs_check E c f)) = errors f"
  by (simp add: human_docs_check_value human_docs_findings_def split: option.splits)

lemma warnings_doctype_check [simp]: "warnings (doctype_check c f) = warnings f"
  by (simp add: doctype_check_def)

lemma warnings_blocks_check [simp]: "warnings (blocks_check bs c f) = warnings f"
  by (induction bs arbitrary: f) auto

text \<open>What the last two checks add to the warnings, whatever was found before.\<close>

definition tail_warnings :: "js_string \<Rightarrow> js_string list" where
  "tail_warnings c =
     warnings (case block_match human_docs_re c of
        None \<Rightarrow>
          (case block_match instructions_re c of
             None \<Rightarrow> no_findings
           | Some src \<Rightarrow> instructions_findings src no_findings)
      | Some src \<Rightarrow>
          human_docs_findings src
            (case block_match instructions_re c of
               None \<Rightarrow> no_findings
             | Some src \<Rightarrow> instructions_findings src no_findings))"

lemma warnings_tail:
  "warnings (snd (human_docs_check E c (snd (instructions_check E c f)))) =
     warnings f @ tail_warnings c"
  by (simp add: human_docs_check_value instructions_check_value tail_warnings_def
      human_docs_findings_def instructions_findings_def no_findings_def Let_def
      split: option.splits)

lemma errors_check_document:
  "errors (check_document E c) =
     errors (snd (metadata_check E c
        (blocks_check REQUIRED_BLOCKS c (doctype_check c no_findings))))"
  by (simp add: check_document_value)

lemma verdict_iff: "verdict f = (if errors f = [] then 0 else 1)"
  by (simp add: verdict_def)

lemma validate_value:
  "fs filePath = Inr content \<Longrightarrow>
   validate E fs filePath console =
     (Return (verdict (check_document E content)),
      console @ report E filePath (check_document E content))"
  by (simp add: validate_def check_content_value check_document_def)

lemma bare_findings:
  "check_document E (str ''<!doctype html>'') =
     \<lparr>errors = [missing_block (str ''hc-metadata''), missing_block (str ''hc-instructions''),
                 missing_block (str ''hc-human-docs'')],
      warnings = []\<rparr>"
  by (simp add: field_eval)

text \<open>
  The checks only append to the two lists. \<open>grows Q R f g\<close>: \<open>g\<close> is \<open>f\<close> with errors
  that satisfy \<open>Q\<close> and warnings that satisfy \<open>R\<close> appended.
\<close>

definition grows :: "(js_string \<Rightarrow> bool) \<Rightarrow> (js_string \<Rightarrow> bool) \<Rightarrow> findings \<Rightarrow> findings \<Rightarrow> bool" where
  "grows Q R f g \<longleftrightarrow>
     (\<exists>es ws. errors g = errors f @ es \<and> warnings g = warnings f @ ws \<and>
        list_all Q es \<and> list_all R ws)"

lemma grows_refl [simp]: "grows Q R f f"
  by (simp add: grows_def)

lemma grows_trans: "grows Q R f g \<Longrightarrow> grows Q R g h \<Longrightarrow> grows Q R f h"
  unfolding grows_def
proof (elim exE conjE)
  fix es ws es' ws'
  assume "errors g = errors f @ es" "warnings g = warnings f @ ws" "list_all Q es" "list_all R ws"
    "errors h = errors g @ es'" "warnings h = warnings g @ ws'" "list_all Q es'" "list_all R ws'"
  then have "errors h = errors f @ (es @ es') \<and> warnings h = warnings f @ (ws @ ws') \<and>
      list_all Q (es @ es') \<and> list_all R (ws @ ws')" by simp
  then show "\<exists>es ws. errors h = errors f @ es \<and> warnings h = warnings f @ ws \<and>
      list_all Q es \<and> list_all R ws" by blast
qed

lemma grows_push_error: "Q m \<Longrightarrow> grows Q R f g \<Longrightarrow> grows Q R f (push_error m g)"
proof -
  assume q: "Q m" and g: "grows Q R f g"
  have "grows Q R g (push_error m g)"
    unfolding grows_def using q by (intro exI[of _ "[m]"] exI[of _ "[]"]) simp
  with g show ?thesis by (rule grows_trans)
qed

lemma grows_push_warning: "R m \<Longrightarrow> grows Q R f g \<Longrightarrow> grows Q R f (push_warning m g)"
proof -
  assume r: "R m" and g: "grows Q R f g"
  have "grows Q R g (push_warning m g)"
    unfolding grows_def using r by (intro exI[of _ "[]"] exI[of _ "[m]"]) simp
  with g show ?thesis by (rule grows_trans)
qed

lemma check_required_grows:
  assumes "\<And>k. Q (missing_field k)"
  shows "grows Q R f0 f \<Longrightarrow> check_required E md ks f = (x, g) \<Longrightarrow> grows Q R f0 g"
proof (induction ks arbitrary: f)
  case Nil
  then show ?case by simp
next
  case (Cons k ks)
  show ?case
  proof (cases "get_field E md k")
    case (Inl e)
    with Cons.prems show ?thesis by simp
  next
    case (Inr v)
    let ?f = "if \<not> is_truthy v then push_error (missing_field k) f else f"
    have "grows Q R f0 ?f" using Cons.prems(1) assms by (simp add: grows_push_error)
    moreover from Cons.prems(2) Inr have "check_required E md ks ?f = (x, g)" by simp
    ultimately show ?thesis by (rule Cons.IH)
  qed
qed

lemma check_version_grows:
  assumes "\<And>s. R (version_warning s)"
  shows "grows Q R f0 f \<Longrightarrow> check_version E md f = (x, g) \<Longrightarrow> grows Q R f0 g"
  using assms
  by (auto simp: check_version_def grows_push_warning split: sum.splits if_splits)

lemma check_type_grows:
  assumes "\<And>s. Q (invalid_type s)"
  shows "grows Q R f0 f \<Longrightarrow> check_type E md f = (x, g) \<Longrightarrow> grows Q R f0 g"
  using assms
  by (auto simp: check_type_def grows_push_error split: sum.splits if_splits)

lemma check_artifact_id_grows:
  assumes "R (str ''artifact_id format should be: hc-[type]-[slug]-[timestamp]'')"
  shows "grows Q R f0 f \<Longrightarrow> check_artifact_id E md f = (x, g) \<Longrightarrow> grows Q R f0 g"
  using assms
  by (auto simp: check_artifact_id_def grows_push_warning split: sum.splits if_splits)

lemma check_timestamps_grows:
  assumes "\<And>a b. Q (invalid_timestamp a b)"
  shows "grows Q R f0 f \<Longrightarrow> check_timestamps E md ks f = (x, g) \<Longrightarrow> grows Q R f0 g"
proof (induction ks arbitrary: f)
  case Nil
  then show ?case by simp
next
  case (Cons k ks)
  have p: "\<And>s. grows Q R f0 (push_error (invalid_timestamp k s) f)"
    using Cons.prems(1) assms by (simp add: grows_push_error)
  from Cons.prems(2) consider "g = f"
    | "check_timestamps E md ks f = (x, g)"
    | s where "check_timestamps E md ks (push_error (invalid_timestamp k s) f) = (x, g)"
    by (auto split: sum.splits if_splits)
  then show ?case
  proof cases
    case 1
    with Cons.prems(1) show ?thesis by simp
  next
    case 2
    with Cons.prems(1) show ?thesis by (rule Cons.IH)
  next
    case 3
    with p show ?thesis by (rule Cons.IH)
  qed
qed

lemma check_summary_grows:
  assumes "\<And>n. R (short_summary n)"
  shows "grows Q R f0 f \<Longrightarrow> check_summary E md f = (x, g) \<Longrightarrow> grows Q R f0 g"
  using assms
  by (auto simp: check_summary_def Let_def grows_push_warning
      split: sum.splits if_splits option.splits json.splits)

lemma and_then_cases:
  assumes "and_then r k = (x, g)"
  obtains f1 where "r = (None, f1)" "k f1 = (x, g)" | e where "r = (Some e, g)" "x = Some e"
proof (cases r)
  case (Pair y f1)
  with assms that show ?thesis by (cases y) auto
qed

lemma and_then_grows:
  assumes "and_then r k = (x, g)"
    and "\<And>y h. r = (y, h) \<Longrightarrow> grows Q R f0 h"
    and "\<And>f1 y h. grows Q R f0 f1 \<Longrightarrow> k f1 = (y, h) \<Longrightarrow> grows Q R f0 h"
  shows "grows Q R f0 g"
  using assms(1)
proof (cases rule: and_then_cases)
  case (1 f1)
  from assms(2)[OF 1(1)] 1(2) show ?thesis by (rule assms(3))
next
  case (2 e)
  from 2(1) show ?thesis by (rule assms(2))
qed

lemma later_checks_grow:
  assumes "\<And>s. Q (invalid_type s)" "\<And>a b. Q (invalid_timestamp a b)"
    "\<And>s. R (version_warning s)" "\<And>n. R (short_summary n)"
    "R (str ''artifact_id format should be: hc-[type]-[slug]-[timestamp]'')"
  shows "grows Q R f0 f1 \<Longrightarrow>
      and_then (check_version E md f1) (\<lambda>f.
      and_then (check_type E md f) (\<lambda>f.
      and_then (check_artifact_id E md f) (\<lambda>f.
      and_then (check_timestamps E md [str ''created'', str ''updated''] f)
        (check_summary E md)))) = (y, h) \<Longrightarrow> grows Q R f0 h"
proof -
  note v = check_version_grows[of R Q, OF assms(3)]
  note t = check_type_grows[of Q R, OF assms(1)]
  note i = check_artifact_id_grows[of R Q, OF assms(5)]
  note d = check_timestamps_grows[of Q R, OF assms(2)]
  note s = check_summary_grows[of R Q, OF assms(4)]
  have s5: "\<And>f1 y h. grows Q R f0 f1 \<Longrightarrow>
      and_then (check_timestamps E md [str ''created'', str ''updated''] f1)
        (check_summary E md) = (y, h) \<Longrightarrow> grows Q R f0 h"
    by (erule and_then_grows) (erule d, assumption, erule s, assumption)
  have s4: "\<And>f1 y h. grows Q R f0 f1 \<Longrightarrow>
      and_then (check_artifact_id E md f1) (\<lambda>f.
      and_then (check_timestamps E md [str ''created'', str ''updated''] f)
        (check_summary E md)) = (y, h) \<Longrightarrow> grows Q R f0 h"
    by (erule and_then_grows) (erule i, assumption, erule s5, assumption)
  have s3: "\<And>f1 y h. grows Q R f0 f1 \<Longrightarrow>
      and_then (check_type E md f1) (\<lambda>f.
      and_then (check_artifact_id E md f) (\<lambda>f.
      and_then (check_timestamps E md [str ''created'', str ''updated''] f)
        (check_summary E md))) = (y, h) \<Longrightarrow> grows Q R f0 h"
    by (erule and_then_grows) (erule t, assumption, erule s4, assumption)
  show "grows Q R f0 f1 \<Longrightarrow>
      and_then (check_version E md f1) (\<lambda>f.
      and_then (check_type E md f) (\<lambda>f.
      and_then (check_artifact_id E md f) (\<lambda>f.
      and_then (check_timestamps E md [str ''created'', str ''updated''] f)
        (check_summary E md)))) = (y, h) \<Longrightarrow> grows Q R f0 h"
    by (erule and_then_grows) (erule v, assumption, erule s3, assumption)
qed

lemma check_fields_steps:
  assumes "\<And>k. Q (missing_field k)" "\<And>s. Q (invalid_type s)" "\<And>a b. Q (invalid_timestamp a b)"
    "\<And>s. R (version_warning s)" "\<And>n. R (short_summary n)"
    "R (str ''artifact_id format should be: hc-[type]-[slug]-[timestamp]'')"
  shows "grows Q R f0 f \<Longrightarrow> check_fields E md f = (x, g) \<Longrightarrow> grows Q R f0 g"
proof -
  assume f: "grows Q R f0 f" and a: "check_fields E md f = (x, g)"
  note r = check_required_grows[of Q R, OF assms(1)]
  note l = later_checks_grow[of Q R, OF assms(2,3,4,5,6)]
  from a show ?thesis
    unfolding check_fields_def
    by (rule and_then_grows) (erule r[OF f], erule l, assumption)
qed

lemma metadata_check_grows:
  assumes "\<And>k. Q (missing_field k)" "\<And>s. Q (invalid_type s)" "\<And>a b. Q (invalid_timestamp a b)"
    "\<And>m. Q (invalid_json m)"
    "\<And>s. R (version_warning s)" "\<And>n. R (short_summary n)"
    "R (str ''artifact_id format should be: hc-[type]-[slug]-[timestamp]'')"
  shows "grows Q R f (snd (metadata_check E c f))"
proof (cases "block_match metadata_re c")
  case None
  then show ?thesis by (simp add: metadata_check_value)
next
  case (Some src)
  obtain x g where tm: "try_metadata E src f = (x, g)" by (cases "try_metadata E src f")
  have g: "grows Q R f g"
  proof (cases "json_parse src")
    case None
    with tm show ?thesis by (auto simp: try_metadata_def)
  next
    case (Some md)
    with tm have "check_fields E md f = (x, g)" by (simp add: try_metadata_def)
    with check_fields_steps[of Q R f f E md x g, OF assms(1,2,3,5,6,7)] show ?thesis by simp
  qed
  show ?thesis
  proof (cases x)
    case None
    with tm g Some show ?thesis by (simp add: metadata_check_value)
  next
    case (Some e)
    with tm g \<open>block_match metadata_re c = Some src\<close> show ?thesis
      by (simp add: metadata_check_value grows_push_error assms(4))
  qed
qed

lemma errors_blocks_check:
  "errors (blocks_check bs c f) =
     errors f @ map missing_block (filter (\<lambda>b. \<not> js_includes c (block_attribute b)) bs)"
  by (induction bs arbitrary: f) auto

lemma errors_doctype_check:
  "errors (doctype_check c f) =
     errors f @ (if startsWith (toLowerCase (trim c)) (str ''<!doctype html>'') then []
                 else [str ''Missing HTML5 doctype (<!DOCTYPE html>)''])"
  by (simp add: doctype_check_def)

text \<open>The errors of the metadata check start with one of two prefixes.\<close>

definition metadata_error :: "js_string \<Rightarrow> bool" where
  "metadata_error m \<longleftrightarrow>
     startsWith m (str ''Invalid '') \<or> startsWith m (str ''Missing required metadata field: '')"

lemma metadata_error_intros:
  "metadata_error (missing_field k)" "metadata_error (invalid_type s)"
  "metadata_error (invalid_timestamp a b)" "metadata_error (invalid_json m)"
  by (simp_all add: metadata_error_def missing_field_def invalid_type_def invalid_timestamp_def
      invalid_json_def str_def)

lemma missing_block_not_metadata_error: "\<not> metadata_error (missing_block b)"
  by (simp add: metadata_error_def missing_block_def str_def)

lemma missing_block_not_doctype:
  "missing_block b \<noteq> str ''Missing HTML5 doctype (<!DOCTYPE html>)''"
  by (simp add: missing_block_def str_def)

lemma missing_block_inject [simp]: "missing_block a = missing_block b \<longleftrightarrow> a = b"
  by (simp add: missing_block_def)

lemma count_list_none: "list_all Q es \<Longrightarrow> \<not> Q m \<Longrightarrow> count_list es m = 0"
  by (induction es) auto

lemma count_missing_block:
  assumes "b \<in> set REQUIRED_BLOCKS"
  shows "count_list (errors (check_document E c)) (missing_block b) =
           (if js_includes c (block_attribute b) then 0 else 1)"
proof -
  let ?f0 = "blocks_check REQUIRED_BLOCKS c (doctype_check c no_findings)"
  have "grows metadata_error (\<lambda>w. True) ?f0 (snd (metadata_check E c ?f0))"
    by (rule metadata_check_grows) (simp_all add: metadata_error_intros)
  then obtain es where e: "errors (snd (metadata_check E c ?f0)) = errors ?f0 @ es"
    and q: "list_all metadata_error es" by (auto simp: grows_def)
  have z: "count_list es (missing_block b) = 0"
    using q missing_block_not_metadata_error by (rule count_list_none)
  have d: "str ''hc-metadata'' \<noteq> str ''hc-instructions''" "str ''hc-metadata'' \<noteq> str ''hc-human-docs''"
    "str ''hc-instructions'' \<noteq> str ''hc-human-docs''"
    by (simp_all add: str_def)
  have "count_list (errors ?f0) (missing_block b) =
      (if js_includes c (block_attribute b) then 0 else 1)"
    using assms d missing_block_not_doctype[of b]
    by (auto simp: errors_blocks_check errors_doctype_check no_findings_def REQUIRED_BLOCKS_def)
  with e z show ?thesis by (simp add: errors_check_document)
qed

lemma count_list_pos_iff: "0 < count_list xs x \<longleftrightarrow> x \<in> set xs"
  by (induction xs) auto


section \<open>The verdict\<close>

text \<open>
  C2. The call returns 1, the failed verdict, exactly when the list of errors of the
  document is not empty, and 0 exactly when it is empty, whatever the warnings.
\<close>

theorem verdict_failed_iff_errors:
  assumes "fs filePath = Inr content"
  shows "(fst (validate E fs filePath console) = Return 1 \<longleftrightarrow>
            errors (check_document E content) \<noteq> []) \<and>
         (fst (validate E fs filePath console) = Return 0 \<longleftrightarrow>
            errors (check_document E content) = [])"
  using assms by (simp add: validate_value verdict_iff)

theorem verdict_failed_iff_errors_witness:
  "example_fs (str ''bare.html'') = Inr (str ''<!doctype html>'') \<and>
   errors (check_document node_engine (str ''<!doctype html>'')) \<noteq> [] \<and>
   fst (validate node_engine example_fs (str ''bare.html'') []) = Return 1"
proof -
  have fs: "example_fs (str ''bare.html'') = Inr (str ''<!doctype html>'')"
    by (simp add: example_fs_def str_def)
  have e: "errors (check_document node_engine (str ''<!doctype html>'')) \<noteq> []"
    by (simp add: bare_findings)
  from verdict_failed_iff_errors[where fs = example_fs and E = node_engine and console = "[]", OF fs] e
  have "fst (validate node_engine example_fs (str ''bare.html'') []) = Return 1"
    by blast
  with fs e show ?thesis by blast
qed

section \<open>Metadata that is not JSON\<close>

lemma empty_page_match: "block_match metadata_re (page []) = Some []"
  by (simp add: block_match_def metadata_re_def page_def str_def)

lemma empty_parse: "json_parse [] = None"
  by (simp add: json_eval)

lemma empty_page_shell:
  "errors (blocks_check REQUIRED_BLOCKS (page []) (doctype_check (page []) no_findings)) = []"
  by (simp add: field_eval no_findings_def)

text \<open>
  C3. When the text of the metadata block is not JSON, the metadata check pushes one error,
  \<^verbatim>\<open>Invalid JSON in hc-metadata: \<close> followed by the parser's message, and nothing else: the
  errors of the document are those of the doctype and block checks followed by that one,
  and the warnings are those of the instructions and human documentation checks.
\<close>

theorem invalid_json_single_error:
  assumes "block_match metadata_re content = Some text" and "json_parse text = None"
  shows "snd (metadata_check E content f) =
           f\<lparr>errors := errors f @ [str ''Invalid JSON in hc-metadata: '' @ syntax_message E text]\<rparr> \<and>
         errors (check_document E content) =
           errors (blocks_check REQUIRED_BLOCKS content (doctype_check content no_findings)) @
           [str ''Invalid JSON in hc-metadata: '' @ syntax_message E text] \<and>
         warnings (check_document E content) = tail_warnings content"
proof -
  have m: "\<And>f. snd (metadata_check E content f) =
      f\<lparr>errors := errors f @ [str ''Invalid JSON in hc-metadata: '' @ syntax_message E text]\<rparr>"
    using assms
    by (simp add: metadata_check_value try_metadata_def push_error_def invalid_json_def)
  have w: "warnings (check_document E content) = tail_warnings content"
    unfolding check_document_value by (subst warnings_tail) (simp add: m no_findings_def)
  show ?thesis using m w by (simp add: errors_check_document)
qed

theorem invalid_json_single_error_witness:
  "errors (check_document node_engine (page [])) =
     [str ''Invalid JSON in hc-metadata: Unexpected end of JSON input'']"
proof -
  from invalid_json_single_error[OF empty_page_match empty_parse, of node_engine]
  have "errors (check_document node_engine (page [])) =
      errors (blocks_check REQUIRED_BLOCKS (page []) (doctype_check (page []) no_findings)) @
      [str ''Invalid JSON in hc-metadata: '' @ syntax_message node_engine []]"
    by blast
  then show ?thesis by (simp add: empty_page_shell node_engine_def str_def)
qed

section \<open>Required blocks\<close>

lemma block_texts:
  \<open>block_attribute (str ''hc-metadata'') = str ''id="hc-metadata"''\<close>
  \<open>block_attribute (str ''hc-instructions'') = str ''id="hc-instructions"''\<close>
  \<open>block_attribute (str ''hc-human-docs'') = str ''id="hc-human-docs"''\<close>
  "missing_block (str ''hc-metadata'') = str ''Missing required block: #hc-metadata''"
  "missing_block (str ''hc-instructions'') = str ''Missing required block: #hc-instructions''"
  "missing_block (str ''hc-human-docs'') = str ''Missing required block: #hc-human-docs''"
  by (simp_all add: block_attribute_def missing_block_def str_def)

text \<open>
  C5. For each of the three required blocks, the errors of a document hold the error
  \<^verbatim>\<open>Missing required block: #\<close> with the identifier exactly once when the text \<^verbatim>\<open>id="..."\<close>
  with that identifier occurs nowhere in the document, and not at all when it occurs.
\<close>

theorem missing_block_error_exactly_once:
  \<open>count_list (errors (check_document E c)) (str ''Missing required block: #hc-metadata'') =
     (if js_includes c (str ''id="hc-metadata"'') then 0 else 1) \<and>
   count_list (errors (check_document E c)) (str ''Missing required block: #hc-instructions'') =
     (if js_includes c (str ''id="hc-instructions"'') then 0 else 1) \<and>
   count_list (errors (check_document E c)) (str ''Missing required block: #hc-human-docs'') =
     (if js_includes c (str ''id="hc-human-docs"'') then 0 else 1)\<close>
proof -
  have b: "str ''hc-metadata'' \<in> set REQUIRED_BLOCKS" "str ''hc-instructions'' \<in> set REQUIRED_BLOCKS"
    "str ''hc-human-docs'' \<in> set REQUIRED_BLOCKS"
    by (simp_all add: REQUIRED_BLOCKS_def)
  from count_missing_block[OF b(1), of E c] count_missing_block[OF b(2), of E c]
    count_missing_block[OF b(3), of E c]
  show ?thesis by (simp only: block_texts)
qed

theorem missing_block_error_exactly_once_witness:
  \<open>count_list (errors (check_document node_engine (str ''<p id="hc-metadata">'')))
     (str ''Missing required block: #hc-metadata'') = 0 \<and>
   count_list (errors (check_document node_engine (str ''<p id="hc-metadata">'')))
     (str ''Missing required block: #hc-instructions'') = 1 \<and>
   count_list (errors (check_document node_engine (str ''<p id="hc-metadata">'')))
     (str ''Missing required block: #hc-human-docs'') = 1\<close>
proof -
  have n: \<open>js_includes (str ''<p id="hc-metadata">'') (str ''id="hc-metadata"'')\<close>
    \<open>\<not> js_includes (str ''<p id="hc-metadata">'') (str ''id="hc-instructions"'')\<close>
    \<open>\<not> js_includes (str ''<p id="hc-metadata">'') (str ''id="hc-human-docs"'')\<close>
    by (simp_all add: str_def)
  from missing_block_error_exactly_once[of node_engine \<open>str ''<p id="hc-metadata">''\<close>] n
  show ?thesis by (simp only: if_True if_False)
qed

section \<open>An absent metadata block\<close>

text \<open>
  C4 as claimed fails: the presence check looks for the text \<^verbatim>\<open>id="hc-metadata"\<close> anywhere,
  the extraction for a match of the pattern of line 42. In the document below the
  identifier sits on a \<^verbatim>\<open>div\<close>: nothing is extracted, the metadata check leaves the findings
  as they are, and no missing-block error for the metadata block is recorded.
\<close>

theorem metadata_skipped_without_error:
  \<open>js_includes (str ''<div id="hc-metadata"></div>'') (str ''id="hc-metadata"'') \<and>
   block_match metadata_re (str ''<div id="hc-metadata"></div>'') = None \<and>
   (\<forall>E. metadata_check E (str ''<div id="hc-metadata"></div>'') no_findings =
          (None, no_findings) \<and>
        str ''Missing required block: #hc-metadata'' \<notin>
          set (errors (check_document E (str ''<div id="hc-metadata"></div>''))))\<close>
  by (simp add: field_eval no_findings_def)

text \<open>
  C4, amended. When the text \<^verbatim>\<open>id="hc-metadata"\<close> occurs nowhere in the document, nothing is
  extracted. The error \<^verbatim>\<open>Missing required block: #hc-metadata\<close> is among the errors exactly
  when that text occurs nowhere in the document. Whenever nothing is extracted, the metadata
  check leaves the findings as they are; so when the text occurs and nothing is extracted,
  the metadata checks are skipped and that error is not recorded.
\<close>

theorem metadata_error_iff_identifier_absent:
  \<open>(\<not> js_includes c (str ''id="hc-metadata"'') \<longrightarrow> block_match metadata_re c = None) \<and>
   (str ''Missing required block: #hc-metadata'' \<in> set (errors (check_document E c)) \<longleftrightarrow>
      \<not> js_includes c (str ''id="hc-metadata"'')) \<and>
   (block_match metadata_re c = None \<longrightarrow> metadata_check E c f = (None, f)) \<and>
   (js_includes c (str ''id="hc-metadata"'') \<and> block_match metadata_re c = None \<longrightarrow>
      metadata_check E c f = (None, f) \<and>
      str ''Missing required block: #hc-metadata'' \<notin> set (errors (check_document E c)))\<close>
proof -
  have "str ''hc-metadata'' \<in> set REQUIRED_BLOCKS" by (simp add: REQUIRED_BLOCKS_def)
  from count_missing_block[OF this, of E c]
  have "missing_block (str ''hc-metadata'') \<in> set (errors (check_document E c)) \<longleftrightarrow>
      \<not> js_includes c (block_attribute (str ''hc-metadata''))"
    by (simp add: count_list_pos_iff[symmetric] split: if_splits)
  then have a: \<open>str ''Missing required block: #hc-metadata'' \<in> set (errors (check_document E c)) \<longleftrightarrow>
      \<not> js_includes c (str ''id="hc-metadata"'')\<close>
    by (simp only: block_texts)
  have "\<not> js_includes c (block_attribute (str ''hc-metadata'')) \<longrightarrow>
      block_match metadata_re c = None"
    using metadata_match_includes[of c] by (cases "block_match metadata_re c") auto
  then have b: \<open>\<not> js_includes c (str ''id="hc-metadata"'') \<longrightarrow> block_match metadata_re c = None\<close>
    by (simp only: block_texts)
  have c: "block_match metadata_re c = None \<longrightarrow> metadata_check E c f = (None, f)"
    by (simp add: metadata_check_value)
  from a b c show ?thesis by blast
qed

theorem metadata_error_iff_identifier_absent_witness:
  \<open>\<not> js_includes (str ''<!doctype html>'') (str ''id="hc-metadata"'') \<and>
   block_match metadata_re (str ''<!doctype html>'') = None \<and>
   metadata_check node_engine (str ''<!doctype html>'') no_findings = (None, no_findings) \<and>
   str ''Missing required block: #hc-metadata'' \<in>
     set (errors (check_document node_engine (str ''<!doctype html>'')))\<close>
proof -
  have n: \<open>\<not> js_includes (str ''<!doctype html>'') (str ''id="hc-metadata"'')\<close>
    by (simp add: str_def)
  with metadata_error_iff_identifier_absent[of "str ''<!doctype html>''" node_engine no_findings]
  show ?thesis by blast
qed

section \<open>Exceptions in the metadata checks\<close>

lemma null_parse: "json_parse (str ''null'') = Some JNull"
  by (simp add: json_eval)

lemma null_page_match: "block_match metadata_re (page (str ''null'')) = Some (str ''null'')"
  by (simp add: block_match_def metadata_re_def page_def str_def)

lemma null_page_errors:
  "errors (check_document E (page (str ''null''))) =
     [str ''Invalid JSON in hc-metadata: '' @ type_message E (NullProperty (str ''hc_version''))]"
  by (simp add: field_eval json_eval)

lemma number_summary_parse:
  \<open>json_parse (str ''{"summary":5}'') = Some (JObject [(str ''summary'', JNumber 5 0)])\<close>
  by (simp add: json_eval)

lemma number_summary_page_match:
  \<open>block_match metadata_re (page (str ''{"summary":5}'')) = Some (str ''{"summary":5}'')\<close>
  by (simp add: block_match_def metadata_re_def page_def str_def)

lemma number_summary_page_errors:
  \<open>errors (check_document E (page (str ''{"summary":5}''))) =
     [str ''Missing required metadata field: hc_version'',
      str ''Missing required metadata field: hc_type'',
      str ''Missing required metadata field: artifact_id'',
      str ''Missing required metadata field: version'',
      str ''Missing required metadata field: created'',
      str ''Missing required metadata field: updated'',
      str ''Invalid JSON in hc-metadata: '' @ type_message E NotCallable]\<close>
  by (simp add: field_eval json_eval number_is_zero_def)

text \<open>
  C10. The metadata of the first document is the JSON value \<^verbatim>\<open>null\<close>, that of the second an
  object whose summary is the number 5. Both are extracted and both parse. Reading a
  property of \<^verbatim>\<open>null\<close> throws in the first, calling \<^verbatim>\<open>split\<close> on a number throws in the
  second, and the handler of the parse failure reports each with the text
  \<^verbatim>\<open>Invalid JSON in hc-metadata: \<close>; in the second the six errors for the missing fields,
  pushed before the exception, stay in the list.
\<close>

theorem checker_exception_reported_as_invalid_json:
  \<open>block_match metadata_re (page (str ''null'')) = Some (str ''null'') \<and>
   json_parse (str ''null'') = Some JNull \<and>
   errors (check_document E (page (str ''null''))) =
     [str ''Invalid JSON in hc-metadata: '' @ type_message E (NullProperty (str ''hc_version''))] \<and>
   block_match metadata_re (page (str ''{"summary":5}'')) = Some (str ''{"summary":5}'') \<and>
   json_parse (str ''{"summary":5}'') = Some (JObject [(str ''summary'', JNumber 5 0)]) \<and>
   errors (check_document E (page (str ''{"summary":5}''))) =
     [str ''Missing required metadata field: hc_version'',
      str ''Missing required metadata field: hc_type'',
      str ''Missing required metadata field: artifact_id'',
      str ''Missing required metadata field: version'',
      str ''Missing required metadata field: created'',
      str ''Missing required metadata field: updated'',
      str ''Invalid JSON in hc-metadata: '' @ type_message E NotCallable]\<close>
  by (simp only: null_parse null_page_match null_page_errors number_summary_parse
      number_summary_page_match number_summary_page_errors simp_thms)

theorem checker_exception_reported_as_invalid_json_witness:
  "errors (check_document node_engine (page (str ''null''))) =
     [str ''Invalid JSON in hc-metadata: Cannot read properties of null (reading '' @ [39] @
      str ''hc_version'' @ [39] @ str '')'']"
  using checker_exception_reported_as_invalid_json[of node_engine]
  by (simp add: node_engine_def str_def)

section \<open>A batch of documents\<close>

lemma validate_readable:
  "readable fs a \<Longrightarrow>
   validate E fs a console =
     (Return (verdict (document_findings E fs a)), console @ document_report E fs a)"
  by (auto simp: readable_def validate_value document_report_def document_findings_def
      split: sum.splits)

lemma validate_all_readable:
  "list_all (readable fs) pre \<Longrightarrow>
   validate_all E fs (pre @ rest) exitCode console =
     validate_all E fs rest
       (if list_ex (\<lambda>a. errors (document_findings E fs a) \<noteq> []) pre then 1 else exitCode)
       (console @ concat (map (document_report E fs) pre))"
proof (induction pre arbitrary: exitCode console)
  case Nil
  then show ?case by simp
next
  case (Cons a pre)
  then have r: "readable fs a" and rest: "list_all (readable fs) pre" by simp_all
  show ?case
    by (simp add: validate_readable[OF r] Cons.IH[OF rest] verdict_iff)
qed

lemma validate_all_unreadable:
  "fs a = Inl msg \<Longrightarrow>
   validate_all E fs (a # post) exitCode console =
     (1, console @ [LogError (str ''Error reading file: '' @ msg)])"
  by (simp add: validate_def)

text \<open>
  C1 as claimed fails: when a file cannot be read, \<^verbatim>\<open>validate\<close> ends the process with
  \<^verbatim>\<open>process.exit(1)\<close>. Here the first path cannot be read and the second holds a document;
  the process writes the read error only, and the second document is never reported.
\<close>

theorem unreadable_file_hides_sibling:
  "example_fs (str ''ok.html'') = Inr (page good_meta) \<and>
   (\<forall>E. main E example_fs [str ''missing.html'', str ''ok.html''] =
          (1, [LogError (str ''Error reading file: ENOENT: no such file or directory'')]) \<and>
        report_header E (str ''ok.html'') \<notin>
          set (snd (main E example_fs [str ''missing.html'', str ''ok.html''])))"
  by (simp add: main_def validate_def example_fs_def str_def report_header_def)

text \<open>
  C1, amended. When every file of a batch can be read, every document is validated and
  reported, in order, and the exit status is 1 exactly when some document has errors: the
  errors of one document do not stop the next. When a file cannot be read, the documents
  before it have been reported, the read error is written, and the process ends there with
  status 1: the documents after it are not validated.
\<close>

theorem batch_reports_until_unreadable_file:
  "(list_all (readable fs) args \<and> args \<noteq> [] \<longrightarrow>
      main E fs args =
        ((if list_ex (\<lambda>a. errors (document_findings E fs a) \<noteq> []) args then 1 else 0),
         concat (map (document_report E fs) args))) \<and>
   (list_all (readable fs) pre \<and> fs a = Inl msg \<longrightarrow>
      main E fs (pre @ a # post) =
        (1, concat (map (document_report E fs) pre) @
            [LogError (str ''Error reading file: '' @ msg)]))"
proof (intro conjI impI)
  assume a: "list_all (readable fs) args \<and> args \<noteq> []"
  then have "validate_all E fs (args @ []) 0 [] =
      validate_all E fs []
        (if list_ex (\<lambda>a. errors (document_findings E fs a) \<noteq> []) args then 1 else 0)
        ([] @ concat (map (document_report E fs) args))"
    by (intro validate_all_readable) simp
  with a show "main E fs args =
      ((if list_ex (\<lambda>a. errors (document_findings E fs a) \<noteq> []) args then 1 else 0),
       concat (map (document_report E fs) args))"
    by (simp add: main_def)
next
  assume a: "list_all (readable fs) pre \<and> fs a = Inl msg"
  then have u: "fs a = Inl msg" by simp
  from a have "validate_all E fs (pre @ a # post) 0 [] =
      validate_all E fs (a # post)
        (if list_ex (\<lambda>a. errors (document_findings E fs a) \<noteq> []) pre then 1 else 0)
        ([] @ concat (map (document_report E fs) pre))"
    by (intro validate_all_readable) simp
  also have "\<dots> = (1, concat (map (document_report E fs) pre) @
      [LogError (str ''Error reading file: '' @ msg)])"
    by (simp only: validate_all_unreadable[where fs = fs and a = a, OF u] append_Nil)
  finally show "main E fs (pre @ a # post) =
      (1, concat (map (document_report E fs) pre) @
          [LogError (str ''Error reading file: '' @ msg)])"
    by (simp add: main_def)
qed

theorem batch_reports_until_unreadable_file_witness:
  "main node_engine example_fs [str ''bare.html'', str ''ok.html''] =
     (1, document_report node_engine example_fs (str ''bare.html'') @
         document_report node_engine example_fs (str ''ok.html'')) \<and>
   main node_engine example_fs [str ''bare.html'', str ''missing.html'', str ''ok.html''] =
     (1, document_report node_engine example_fs (str ''bare.html'') @
         [LogError (str ''Error reading file: ENOENT: no such file or directory'')])"
proof -
  have r: "readable example_fs (str ''bare.html'')" "readable example_fs (str ''ok.html'')"
    by (simp_all add: readable_def example_fs_def str_def)
  have u: "example_fs (str ''missing.html'') = Inl (str ''ENOENT: no such file or directory'')"
    by (simp add: example_fs_def str_def)
  have e: "errors (document_findings node_engine example_fs (str ''bare.html'')) \<noteq> []"
    by (simp add: document_findings_def example_fs_def bare_findings)
       (simp add: str_def)
  note t = batch_reports_until_unreadable_file[where E = node_engine and fs = example_fs]
  from t[of "[str ''bare.html'', str ''ok.html'']"] r e
  have "main node_engine example_fs [str ''bare.html'', str ''ok.html''] =
     (1, document_report node_engine example_fs (str ''bare.html'') @
         document_report node_engine example_fs (str ''ok.html''))"
    by simp
  moreover from t[of _ "[str ''bare.html'']" "str ''missing.html''" _ "[str ''ok.html'']"] r u
  have "main node_engine example_fs [str ''bare.html'', str ''missing.html'', str ''ok.html''] =
     (1, document_report node_engine example_fs (str ''bare.html'') @
         [LogError (str ''Error reading file: ENOENT: no such file or directory'')])"
    by (simp add: str_def)
  ultimately show ?thesis by blast
qed


section \<open>No exception leaves the validator\<close>

lemma verdict_le: "verdict f \<le> 1"
  by (simp add: verdict_def)

lemma caught_error:
  assumes "block_match metadata_re c = Some src"
    and "try_metadata E src (blocks_check REQUIRED_BLOCKS c (doctype_check c no_findings)) =
           (Some x, g)"
  shows "errors (check_document E c) =
           errors g @ [str ''Invalid JSON in hc-metadata: '' @ message x]"
  using assms by (simp add: errors_check_document metadata_check_value invalid_json_def)

text \<open>
  C9. Whatever the text of a document, no exception leaves its checks: the reads of a
  group are guarded, and the handler takes what the \<^verbatim>\<open>try\<close> block throws. So for a file
  that can be read the call returns, never throws: its result is the verdict of the
  findings, 0 or 1, and it has written the report. Whatever the \<^verbatim>\<open>try\<close> block throws, a
  parse failure or an exception of a field check, is recorded as the last error of the
  document, \<^verbatim>\<open>Invalid JSON in hc-metadata: \<close> followed by the message of the exception.
\<close>

theorem validate_returns_normally:
  "fst (check_content E content) = None \<and>
   (fs filePath = Inr content \<longrightarrow>
      validate E fs filePath console =
        (Return (verdict (check_document E content)),
         console @ report E filePath (check_document E content)) \<and>
      verdict (check_document E content) \<le> 1) \<and>
   (\<forall>src x g. block_match metadata_re content = Some src \<and>
      try_metadata E src
        (blocks_check REQUIRED_BLOCKS content (doctype_check content no_findings)) =
        (Some x, g) \<longrightarrow>
      errors (check_document E content) =
        errors g @ [str ''Invalid JSON in hc-metadata: '' @ message x])"
  using validate_value[of fs filePath content E console] verdict_le caught_error[of content _ E]
  by (simp add: check_content_value)

theorem validate_returns_normally_witness:
  "try_metadata node_engine (str ''null'') no_findings =
     (Some (TypeError (str ''Cannot read properties of null (reading '' @ [39] @
        str ''hc_version'' @ [39] @ str '')'')), no_findings) \<and>
   fst (check_content node_engine (page (str ''null''))) = None \<and>
   validate node_engine example_fs (str ''null.html'') [] =
     (Return 1, report node_engine (str ''null.html'')
        (check_document node_engine (page (str ''null''))))"
proof -
  have fs: "example_fs (str ''null.html'') = Inr (page (str ''null''))"
    by (simp add: example_fs_def str_def)
  have v: "verdict (check_document node_engine (page (str ''null''))) = 1"
    by (simp add: verdict_iff null_page_errors)
  have t: "try_metadata node_engine (str ''null'') no_findings =
     (Some (TypeError (str ''Cannot read properties of null (reading '' @ [39] @
        str ''hc_version'' @ [39] @ str '')'')), no_findings)"
    by (simp only: try_metadata_def null_parse option.case)
       (simp add: check_fields_def REQUIRED_METADATA_FIELDS_def get_field_def node_engine_def
          str_def)
  from validate_returns_normally[where fs = example_fs and E = node_engine and console = "[]"
      and filePath = "str ''null.html''" and content = "page (str ''null'')"] fs
  have "fst (check_content node_engine (page (str ''null''))) = None \<and>
    validate node_engine example_fs (str ''null.html'') [] =
      (Return (verdict (check_document node_engine (page (str ''null'')))),
       [] @ report node_engine (str ''null.html'') (check_document node_engine (page (str ''null''))))"
    by blast
  with t show ?thesis by (simp only: v append_Nil simp_thms)
qed

section \<open>Required metadata fields\<close>

lemma five_parse: "json_parse (str ''5'') = Some (JNumber 5 0)"
  by (simp add: json_eval)

lemma five_page_match: "block_match metadata_re (page (str ''5'')) = Some (str ''5'')"
  by (simp add: block_match_def metadata_re_def page_def str_def)

lemma five_page_errors:
  "errors (check_document E (page (str ''5''))) =
     [str ''Missing required metadata field: hc_version'',
      str ''Missing required metadata field: hc_type'',
      str ''Missing required metadata field: artifact_id'',
      str ''Missing required metadata field: version'',
      str ''Missing required metadata field: created'',
      str ''Missing required metadata field: updated'',
      str ''Missing required metadata field: summary'']"
  by (simp add: field_eval json_eval)

text \<open>
  C6. The claim holds of the loop of lines 48 to 52 on every metadata value but one. For
  metadata that is the JSON value \<^verbatim>\<open>null\<close>, which parses and in which all seven fields are
  absent, reading the first field throws: no error names a field, and the handler reports
  invalid JSON. The number 5, as little an object as \<^verbatim>\<open>null\<close>, gets the seven errors.
\<close>

theorem null_metadata_names_no_field:
  "block_match metadata_re (page (str ''null'')) = Some (str ''null'') \<and>
   json_parse (str ''null'') = Some JNull \<and>
   (\<forall>E. errors (check_document E (page (str ''null''))) =
      [str ''Invalid JSON in hc-metadata: '' @
       type_message E (NullProperty (str ''hc_version''))]) \<and>
   block_match metadata_re (page (str ''5'')) = Some (str ''5'') \<and>
   json_parse (str ''5'') = Some (JNumber 5 0) \<and>
   (\<forall>E. errors (check_document E (page (str ''5''))) =
      [str ''Missing required metadata field: hc_version'',
       str ''Missing required metadata field: hc_type'',
       str ''Missing required metadata field: artifact_id'',
       str ''Missing required metadata field: version'',
       str ''Missing required metadata field: created'',
       str ''Missing required metadata field: updated'',
       str ''Missing required metadata field: summary''])"
  by (simp only: null_page_match null_parse null_page_errors five_page_match five_parse
      five_page_errors simp_thms)

section \<open>The length of the summary\<close>

lemma hidden_summary_match: "block_match metadata_re (page hidden_summary) = Some hidden_summary"
  by (simp add: block_match_def metadata_re_def page_def str_def hidden_summary_def)

lemma hidden_summary_parse:
  "json_parse hidden_summary =
     Some (JObject [(str ''artifact_id'', JObject [(str ''toString'', JNumber 1 0)]),
                    (str ''summary'', JString (str ''a b c d e f g h i''))])"
  by (simp add: json_eval hidden_summary_def)

lemma nine_pieces:
  "split_ws (str ''a b c d e f g h i'') =
     [str ''a'', str ''b'', str ''c'', str ''d'', str ''e'', str ''f'', str ''g'', str ''h'',
      str ''i'']"
  by (simp add: split_ws_def str_def is_space_def)

lemma hidden_summary_findings:
  "check_document E (page hidden_summary) =
     \<lparr>errors =
        [str ''Missing required metadata field: hc_version'',
         str ''Missing required metadata field: hc_type'',
         str ''Missing required metadata field: version'',
         str ''Missing required metadata field: created'',
         str ''Missing required metadata field: updated'',
         str ''Invalid JSON in hc-metadata: '' @ type_message E NotPrimitive],
      warnings =
        [str ''hc-instructions seems very short. Include detailed steps.'',
         str ''hc-instructions should include numbered steps'',
         str ''hc-human-docs seems very short. Include comprehensive documentation.'']\<rparr>"
  by (simp add: field_eval json_eval hidden_summary_def number_is_zero_def)

lemma nine_page_match: "block_match metadata_re (page nine_meta) = Some nine_meta"
  by (simp add: block_match_def metadata_re_def page_def str_def nine_meta_def)

lemma nine_parse:
  "json_parse nine_meta = Some (JObject [(str ''summary'', JString (str ''a b c d e f g h i''))])"
  by (simp add: json_eval nine_meta_def)

lemma nine_page_warnings:
  "warnings (check_document E (page nine_meta)) =
     [str ''Summary seems short (9 words). Aim for 50-100 tokens.'',
      str ''hc-instructions seems very short. Include detailed steps.'',
      str ''hc-instructions should include numbered steps'',
      str ''hc-human-docs seems very short. Include comprehensive documentation.'']"
  by (simp add: field_eval json_eval nine_meta_def show_nat.simps)

text \<open>
  The pieces are those of \<^verbatim>\<open>split\<close>: white space at the end of the summary leaves an empty
  piece, which counts.
\<close>

lemma trailing_space_counts: "length (split_ws (str ''a b c d e f g h i '')) = 10"
  by (simp add: split_ws_def str_def is_space_def)

text \<open>
  C8. The summary check is the last statement of the \<^verbatim>\<open>try\<close> block. In the first document
  the summary has 9 pieces and the identifier is an object with a member named
  \<^verbatim>\<open>toString\<close>: testing it against the identifier pattern throws, the summary check never
  runs, and the warnings hold nothing about the summary. In the second document, with the
  same summary and no identifier, the summary check runs and warns.
\<close>

theorem short_summary_lost_after_exception:
  "block_match metadata_re (page hidden_summary) = Some hidden_summary \<and>
   json_parse hidden_summary =
     Some (JObject [(str ''artifact_id'', JObject [(str ''toString'', JNumber 1 0)]),
                    (str ''summary'', JString (str ''a b c d e f g h i''))]) \<and>
   split_ws (str ''a b c d e f g h i'') =
     [str ''a'', str ''b'', str ''c'', str ''d'', str ''e'', str ''f'', str ''g'', str ''h'',
      str ''i''] \<and>
   (\<forall>E. check_document E (page hidden_summary) =
     \<lparr>errors =
        [str ''Missing required metadata field: hc_version'',
         str ''Missing required metadata field: hc_type'',
         str ''Missing required metadata field: version'',
         str ''Missing required metadata field: created'',
         str ''Missing required metadata field: updated'',
         str ''Invalid JSON in hc-metadata: '' @ type_message E NotPrimitive],
      warnings =
        [str ''hc-instructions seems very short. Include detailed steps.'',
         str ''hc-instructions should include numbered steps'',
         str ''hc-human-docs seems very short. Include comprehensive documentation.'']\<rparr>) \<and>
   json_parse nine_meta =
     Some (JObject [(str ''summary'', JString (str ''a b c d e f g h i''))]) \<and>
   (\<forall>E. warnings (check_document E (page nine_meta)) =
     [str ''Summary seems short (9 words). Aim for 50-100 tokens.'',
      str ''hc-instructions seems very short. Include detailed steps.'',
      str ''hc-instructions should include numbered steps'',
      str ''hc-human-docs seems very short. Include comprehensive documentation.''])"
  by (simp only: hidden_summary_match hidden_summary_parse nine_pieces hidden_summary_findings
      nine_parse nine_page_warnings simp_thms)

section \<open>The type of the artifact\<close>

lemma get_field_value [simp]: "md \<noteq> JNull \<Longrightarrow> get_field E md k = Inr (own_property md k)"
  by (simp add: get_field_def)

lemma check_required_value:
  "md \<noteq> JNull \<Longrightarrow>
   check_required E md ks f =
     (None, f\<lparr>errors := errors f @
        map missing_field (filter (\<lambda>k. \<not> is_truthy (own_property md k)) ks)\<rparr>)"
  by (induction ks arbitrary: f) (simp_all add: push_error_def)

lemma good_page_match: "block_match metadata_re (page good_meta) = Some good_meta"
  by (simp add: block_match_def metadata_re_def page_def str_def good_meta_def type_meta_def)

lemma good_parse:
  "json_parse good_meta =
     Some (JObject
       [(str ''hc_version'', JString (str ''1.1'')), (str ''hc_type'', JString (str ''skill'')),
        (str ''artifact_id'', JString (str ''hc-skill-a-1'')), (str ''version'', JString (str ''1'')),
        (str ''created'', JString (str ''2024-02-08'')),
        (str ''updated'', JString (str ''2024-02-08'')),
        (str ''summary'', JString (str ''a b c d e f g h i j''))])"
  by (simp add: json_eval good_meta_def type_meta_def)

lemma check_fields_run:
  "check_fields E md f0 = (None, g) \<longleftrightarrow>
     (\<exists>f1 f2 f3 f4 f5.
        check_required E md REQUIRED_METADATA_FIELDS f0 = (None, f1) \<and>
        check_version E md f1 = (None, f2) \<and>
        check_type E md f2 = (None, f3) \<and>
        check_artifact_id E md f3 = (None, f4) \<and>
        check_timestamps E md [str ''created'', str ''updated''] f4 = (None, f5) \<and>
        check_summary E md f5 = (None, g))"
proof
  assume "check_fields E md f0 = (None, g)"
  then show "\<exists>f1 f2 f3 f4 f5.
        check_required E md REQUIRED_METADATA_FIELDS f0 = (None, f1) \<and>
        check_version E md f1 = (None, f2) \<and>
        check_type E md f2 = (None, f3) \<and>
        check_artifact_id E md f3 = (None, f4) \<and>
        check_timestamps E md [str ''created'', str ''updated''] f4 = (None, f5) \<and>
        check_summary E md f5 = (None, g)"
    unfolding check_fields_def by (elim and_then_cases) auto
next
  assume "\<exists>f1 f2 f3 f4 f5.
        check_required E md REQUIRED_METADATA_FIELDS f0 = (None, f1) \<and>
        check_version E md f1 = (None, f2) \<and>
        check_type E md f2 = (None, f3) \<and>
        check_artifact_id E md f3 = (None, f4) \<and>
        check_timestamps E md [str ''created'', str ''updated''] f4 = (None, f5) \<and>
        check_summary E md f5 = (None, g)"
  then show "check_fields E md f0 = (None, g)"
    unfolding check_fields_def by (auto simp del: check_required.simps check_timestamps.simps)
qed

lemma grows_errors_prefix: "grows Q R f g \<Longrightarrow> errors g = [] \<Longrightarrow> errors f = []"
  by (auto simp: grows_def)

lemma any_grows:
  "check_required E md ks f = (x, g) \<Longrightarrow> grows (\<lambda>m. True) (\<lambda>w. True) f g"
  "check_version E md f = (x, g) \<Longrightarrow> grows (\<lambda>m. True) (\<lambda>w. True) f g"
  "check_type E md f = (x, g) \<Longrightarrow> grows (\<lambda>m. True) (\<lambda>w. True) f g"
  "check_artifact_id E md f = (x, g) \<Longrightarrow> grows (\<lambda>m. True) (\<lambda>w. True) f g"
  "check_timestamps E md ks f = (x, g) \<Longrightarrow> grows (\<lambda>m. True) (\<lambda>w. True) f g"
  "check_summary E md f = (x, g) \<Longrightarrow> grows (\<lambda>m. True) (\<lambda>w. True) f g"
  by (erule check_required_grows[rotated -1] check_version_grows[rotated -1]
      check_type_grows[rotated -1] check_artifact_id_grows[rotated -1]
      check_timestamps_grows[rotated -1] check_summary_grows[rotated -1]; simp)+

lemma check_version_transfer:
  assumes "md \<noteq> JNull" "md' \<noteq> JNull"
    and "own_property md' (str ''hc_version'') = own_property md (str ''hc_version'')"
    and "check_version E md f = (None, g)"
  shows "\<exists>g'. check_version E md' f' = (None, g') \<and> errors g' = errors f'"
  using assms by (auto simp: check_version_def split: sum.splits if_splits)

lemma check_artifact_id_transfer:
  assumes "md \<noteq> JNull" "md' \<noteq> JNull"
    and "own_property md' (str ''artifact_id'') = own_property md (str ''artifact_id'')"
    and "check_artifact_id E md f = (None, g)"
  shows "\<exists>g'. check_artifact_id E md' f' = (None, g') \<and> errors g' = errors f'"
  using assms by (auto simp: check_artifact_id_def split: sum.splits if_splits)

lemma check_summary_transfer:
  assumes "md \<noteq> JNull" "md' \<noteq> JNull"
    and "own_property md' (str ''summary'') = own_property md (str ''summary'')"
    and "check_summary E md f = (None, g)"
  shows "\<exists>g'. check_summary E md' f' = (None, g') \<and> errors g' = errors f'"
  using assms
  by (auto simp: check_summary_def Let_def split: sum.splits if_splits option.splits json.splits)

lemma check_timestamps_transfer:
  assumes "md \<noteq> JNull" "md' \<noteq> JNull"
  shows "\<forall>k\<in>set ks. own_property md' k = own_property md k \<Longrightarrow>
    check_timestamps E md ks f = (None, g) \<Longrightarrow> errors g = errors f \<Longrightarrow>
    \<exists>g'. check_timestamps E md' ks f' = (None, g') \<and> errors g' = errors f'"
proof (induction ks arbitrary: f f')
  case Nil
  then show ?case by simp
next
  case (Cons k ks)
  from Cons.prems(1) have same: "own_property md' k = own_property md k"
    and rest: "\<forall>k\<in>set ks. own_property md' k = own_property md k" by simp_all
  show ?case
  proof (cases "is_truthy (own_property md k)")
    case False
    with Cons.prems(2) assms have "check_timestamps E md ks f = (None, g)" by simp
    from Cons.IH[OF rest this Cons.prems(3), of f'] False same assms show ?thesis by simp
  next
    case True
    with Cons.prems(2) assms obtain ok where d: "date_valid_opt E (own_property md k) = Inr ok"
      by (auto split: sum.splits)
    show ?thesis
    proof (cases ok)
      case True
      with \<open>is_truthy (own_property md k)\<close> d Cons.prems(2) assms
      have "check_timestamps E md ks f = (None, g)" by simp
      from Cons.IH[OF rest this Cons.prems(3), of f'] True \<open>is_truthy (own_property md k)\<close> d same assms
      show ?thesis by simp
    next
      case False
      with \<open>is_truthy (own_property md k)\<close> d Cons.prems(2) assms obtain s where
        "check_timestamps E md ks (push_error (invalid_timestamp k s) f) = (None, g)"
        by (auto split: sum.splits)
      from any_grows(5)[OF this] have "\<exists>es. errors g = (errors f @ [invalid_timestamp k s]) @ es"
        by (auto simp: grows_def)
      with Cons.prems(3) show ?thesis by simp
    qed
  qed
qed

lemma clean_run:
  assumes m: "block_match metadata_re c = Some src" and p: "json_parse src = Some md"
    and e: "errors (check_document E c) = []"
  shows "md \<noteq> JNull \<and>
    (\<exists>f1 f2 f3 f4 f5 g.
        errors (blocks_check REQUIRED_BLOCKS c (doctype_check c no_findings)) = [] \<and>
        check_required E md REQUIRED_METADATA_FIELDS
          (blocks_check REQUIRED_BLOCKS c (doctype_check c no_findings)) = (None, f1) \<and>
        errors f1 = [] \<and>
        check_version E md f1 = (None, f2) \<and>
        check_type E md f2 = (None, f3) \<and>
        check_artifact_id E md f3 = (None, f4) \<and>
        check_timestamps E md [str ''created'', str ''updated''] f4 = (None, f5) \<and>
        errors f5 = errors f4 \<and>
        check_summary E md f5 = (None, g))"
proof -
  let ?f0 = "blocks_check REQUIRED_BLOCKS c (doctype_check c no_findings)"
  obtain x g where cf: "check_fields E md ?f0 = (x, g)" by (cases "check_fields E md ?f0")
  from e m p cf have c: "errors (snd (catch_metadata (x, g))) = []"
    by (simp add: errors_check_document metadata_check_value try_metadata_def)
  then have x: "x = None" by (cases x) auto
  with c have g: "errors g = []" by simp
  from cf x have "check_fields E md ?f0 = (None, g)" by simp
  then obtain f1 f2 f3 f4 f5 where
    r1: "check_required E md REQUIRED_METADATA_FIELDS ?f0 = (None, f1)" and
    r2: "check_version E md f1 = (None, f2)" and
    r3: "check_type E md f2 = (None, f3)" and
    r4: "check_artifact_id E md f3 = (None, f4)" and
    r5: "check_timestamps E md [str ''created'', str ''updated''] f4 = (None, f5)" and
    r6: "check_summary E md f5 = (None, g)"
    using check_fields_run[of E md ?f0 g] by blast
  from grows_errors_prefix[OF any_grows(6)[OF r6] g] have e5: "errors f5 = []" .
  from grows_errors_prefix[OF any_grows(5)[OF r5] e5] have e4: "errors f4 = []" .
  from grows_errors_prefix[OF any_grows(4)[OF r4] e4] have e3: "errors f3 = []" .
  from grows_errors_prefix[OF any_grows(3)[OF r3] e3] have e2: "errors f2 = []" .
  from grows_errors_prefix[OF any_grows(2)[OF r2] e2] have e1: "errors f1 = []" .
  from grows_errors_prefix[OF any_grows(1)[OF r1] e1] have e0: "errors ?f0 = []" .
  have n: "md \<noteq> JNull"
  proof
    assume "md = JNull"
    with r1 show False by (simp add: REQUIRED_METADATA_FIELDS_def get_field_def)
  qed
  from n e0 r1 e1 r2 r3 r4 r5 e4 e5 r6 show ?thesis by auto
qed

lemma type_change:
  assumes m: "block_match metadata_re c = Some src" and p: "json_parse src = Some md"
    and m': "block_match metadata_re c' = Some src'" and p': "json_parse src' = Some md'"
    and same: "\<forall>k. k \<noteq> str ''hc_type'' \<longrightarrow> own_property md' k = own_property md k"
    and shell: "errors (blocks_check REQUIRED_BLOCKS c' (doctype_check c' no_findings)) =
                errors (blocks_check REQUIRED_BLOCKS c (doctype_check c no_findings))"
    and e: "errors (check_document E c) = []"
    and v: "own_property md' (str ''hc_type'') = Some v" and tv: "truthy v"
    and sv: "to_string E v = Inr s"
  shows "errors (check_document E c') =
           (if array_includes VALID_TYPES (Some v) then [] else [invalid_type s])"
proof -
  let ?f0 = "blocks_check REQUIRED_BLOCKS c (doctype_check c no_findings)"
  let ?f0' = "blocks_check REQUIRED_BLOCKS c' (doctype_check c' no_findings)"
  from clean_run[OF m p e] obtain f1 f2 f3 f4 f5 g where
    n: "md \<noteq> JNull" and e0: "errors ?f0 = []" and
    r1: "check_required E md REQUIRED_METADATA_FIELDS ?f0 = (None, f1)" and e1: "errors f1 = []" and
    r2: "check_version E md f1 = (None, f2)" and
    r3: "check_type E md f2 = (None, f3)" and
    r4: "check_artifact_id E md f3 = (None, f4)" and
    r5: "check_timestamps E md [str ''created'', str ''updated''] f4 = (None, f5)" and
    e5: "errors f5 = errors f4" and
    r6: "check_summary E md f5 = (None, g)"
    by blast
  from v have n': "md' \<noteq> JNull" by auto
  have d: "str ''hc_version'' \<noteq> str ''hc_type''" "str ''artifact_id'' \<noteq> str ''hc_type''"
    "str ''version'' \<noteq> str ''hc_type''" "str ''created'' \<noteq> str ''hc_type''"
    "str ''updated'' \<noteq> str ''hc_type''" "str ''summary'' \<noteq> str ''hc_type''"
    by (simp_all add: str_def)
  from r1 e1 e0 n have all: "\<forall>k\<in>set REQUIRED_METADATA_FIELDS. is_truthy (own_property md k)"
    by (auto simp: check_required_value filter_empty_conv)
  have all': "\<forall>k\<in>set REQUIRED_METADATA_FIELDS. is_truthy (own_property md' k)"
  proof
    fix k assume k: "k \<in> set REQUIRED_METADATA_FIELDS"
    show "is_truthy (own_property md' k)"
    proof (cases "k = str ''hc_type''")
      case True
      with v tv show ?thesis by simp
    next
      case False
      with same all k show ?thesis by simp
    qed
  qed
  have b1: "check_required E md' REQUIRED_METADATA_FIELDS ?f0' = (None, ?f0')"
    using all' n' by (simp add: check_required_value filter_False)
  from check_version_transfer[OF n n' _ r2, of ?f0'] same d(1)
  obtain f2' where b2: "check_version E md' ?f0' = (None, f2')" and e2': "errors f2' = errors ?f0'"
    by auto
  let ?f3' = "if array_includes VALID_TYPES (Some v) then f2' else push_error (invalid_type s) f2'"
  have b3: "check_type E md' f2' = (None, ?f3')"
    using n' v tv sv by (simp add: check_type_def)
  from check_artifact_id_transfer[OF n n' _ r4, of ?f3'] same d(2)
  obtain f4' where b4: "check_artifact_id E md' ?f3' = (None, f4')" and e4': "errors f4' = errors ?f3'"
    by auto
  have "\<forall>k\<in>set [str ''created'', str ''updated'']. own_property md' k = own_property md k"
    using same d(4,5) by simp
  from check_timestamps_transfer[OF n n' this r5 e5, of f4']
  obtain f5' where b5: "check_timestamps E md' [str ''created'', str ''updated''] f4' = (None, f5')"
    and e5': "errors f5' = errors f4'" by auto
  from check_summary_transfer[OF n n' _ r6, of f5'] same d(6)
  obtain g' where b6: "check_summary E md' f5' = (None, g')" and e6': "errors g' = errors f5'"
    by auto
  have "check_fields E md' ?f0' = (None, g')"
    unfolding check_fields_run using b1 b2 b3 b4 b5 b6 by blast
  then have "errors (check_document E c') = errors g'"
    using m' p' by (simp add: errors_check_document metadata_check_value try_metadata_def)
  also have "\<dots> = errors ?f3'" using e6' e5' e4' by simp
  also have "\<dots> = (if array_includes VALID_TYPES (Some v) then [] else [invalid_type s])"
    using e2' shell e0 by simp
  finally show ?thesis .
qed

lemma good_page_errors: "errors (check_document node_engine (page good_meta)) = []"
  by (simp add: check_eval json_eval good_meta_def type_meta_def)

lemma empty_type_page_errors:
  \<open>errors (check_document node_engine (page (type_meta (str ''""'')))) =
     [missing_field (str ''hc_type'')]\<close>
  by (simp add: check_eval json_eval type_meta_def)

lemma widget_page_match:
  \<open>block_match metadata_re (page (type_meta (str ''"widget"''))) =
     Some (type_meta (str ''"widget"''))\<close>
  by (simp add: block_match_def metadata_re_def page_def str_def type_meta_def)

lemma widget_parse:
  \<open>json_parse (type_meta (str ''"widget"'')) =
     Some (JObject
       [(str ''hc_version'', JString (str ''1.1'')), (str ''hc_type'', JString (str ''widget'')),
        (str ''artifact_id'', JString (str ''hc-skill-a-1'')), (str ''version'', JString (str ''1'')),
        (str ''created'', JString (str ''2024-02-08'')),
        (str ''updated'', JString (str ''2024-02-08'')),
        (str ''summary'', JString (str ''a b c d e f g h i j''))])\<close>
  by (simp add: json_eval type_meta_def)

lemma good_page_shell:
  "errors (blocks_check REQUIRED_BLOCKS (page good_meta)
     (doctype_check (page good_meta) no_findings)) = []"
  by (simp add: check_eval no_findings_def good_meta_def type_meta_def)

lemma widget_page_shell:
  \<open>errors (blocks_check REQUIRED_BLOCKS (page (type_meta (str ''"widget"'')))
     (doctype_check (page (type_meta (str ''"widget"''))) no_findings)) = []\<close>
  by (simp add: check_eval no_findings_def type_meta_def)

lemma invalid_type_not_missing_field: "invalid_type s \<noteq> missing_field k"
  by (simp add: invalid_type_def missing_field_def str_def)

lemma empty_type_parse:
  \<open>json_parse (type_meta (str ''""'')) =
     Some (JObject
       [(str ''hc_version'', JString (str ''1.1'')), (str ''hc_type'', JString []),
        (str ''artifact_id'', JString (str ''hc-skill-a-1'')), (str ''version'', JString (str ''1'')),
        (str ''created'', JString (str ''2024-02-08'')),
        (str ''updated'', JString (str ''2024-02-08'')),
        (str ''summary'', JString (str ''a b c d e f g h i j''))])\<close>
  by (simp add: json_eval type_meta_def)

lemma invalid_type_text:
  "invalid_type s = str ''Invalid hc_type: '' @ s @ str ''. Must be one of: registry, skill, artifact, identity, framework''"
  by (simp add: invalid_type_def VALID_TYPES_def str_def)

lemma valid_types_literal:
  "array_includes VALID_TYPES (Some v) \<longleftrightarrow>
     v \<in> {JString (str ''registry''), JString (str ''skill''), JString (str ''artifact''),
          JString (str ''identity''), JString (str ''framework'')}"
  by (cases v) (auto simp: VALID_TYPES_def)

text \<open>
  C7 as claimed fails for a value outside the allowed set that is falsy. The two documents
  below differ in the type alone, \<^verbatim>\<open>"skill"\<close> in the first and the empty string in the second.
  With the engine of the examples, which parses their date, the first has no error; the
  second has one, and it is the error of a missing field, which neither names an invalid
  type nor lists the allowed set.
\<close>

theorem empty_type_reported_as_missing:
  \<open>errors (check_document node_engine (page (type_meta (str ''"skill"'')))) = [] \<and>
   json_parse (type_meta (str ''""'')) =
     Some (JObject
       [(str ''hc_version'', JString (str ''1.1'')), (str ''hc_type'', JString []),
        (str ''artifact_id'', JString (str ''hc-skill-a-1'')), (str ''version'', JString (str ''1'')),
        (str ''created'', JString (str ''2024-02-08'')),
        (str ''updated'', JString (str ''2024-02-08'')),
        (str ''summary'', JString (str ''a b c d e f g h i j''))]) \<and>
   errors (check_document node_engine (page (type_meta (str ''""'')))) =
     [str ''Missing required metadata field: hc_type''] \<and>
   (\<forall>s. str ''Invalid hc_type: '' @ s @ str ''. Must be one of: registry, skill, artifact, identity, framework'' \<notin>
      set (errors (check_document node_engine (page (type_meta (str ''""''))))))\<close>
proof -
  have a: \<open>errors (check_document node_engine (page (type_meta (str ''"skill"'')))) = []\<close>
    using good_page_errors by (simp only: good_meta_def)
  have b: "missing_field (str ''hc_type'') = str ''Missing required metadata field: hc_type''"
    by (simp add: missing_field_def str_def)
  have c: "\<forall>s. str ''Invalid hc_type: '' @ s @ str ''. Must be one of: registry, skill, artifact, identity, framework'' \<notin>
      set [str ''Missing required metadata field: hc_type'']"
    by (simp add: str_def)
  show ?thesis
    using c by (simp only: a empty_type_parse empty_type_page_errors b simp_thms)
qed

text \<open>
  C7, amended. Take a document without errors and a second one that differs from it in
  the value of \<^verbatim>\<open>hc_type\<close> alone: the metadata of both parse, every other member reads the
  same, and the doctype and block checks find the same. When the new value is truthy and
  its conversion to a string returns \<open>s\<close>, then, if it is not one of the five strings
  \<^verbatim>\<open>registry\<close>, \<^verbatim>\<open>skill\<close>, \<^verbatim>\<open>artifact\<close>, \<^verbatim>\<open>identity\<close>, \<^verbatim>\<open>framework\<close>, the second document fails
  with exactly one error, the text \<^verbatim>\<open>Invalid hc_type: \<close>, \<open>s\<close>, and
  \<^verbatim>\<open>. Must be one of: registry, skill, artifact, identity, framework\<close>; if it is one of them,
  the second document has no error.
\<close>

theorem invalid_type_flips_verdict:
  assumes "block_match metadata_re c = Some src" and "json_parse src = Some md"
    and "block_match metadata_re c' = Some src'" and "json_parse src' = Some md'"
    and "\<forall>k. k \<noteq> str ''hc_type'' \<longrightarrow> own_property md' k = own_property md k"
    and "errors (blocks_check REQUIRED_BLOCKS c' (doctype_check c' no_findings)) =
         errors (blocks_check REQUIRED_BLOCKS c (doctype_check c no_findings))"
    and "errors (check_document E c) = []"
    and "own_property md' (str ''hc_type'') = Some v" and "truthy v"
    and "to_string E v = Inr s"
  shows "verdict (check_document E c) = 0 \<and>
         (if v \<in> {JString (str ''registry''), JString (str ''skill''),
                  JString (str ''artifact''), JString (str ''identity''),
                  JString (str ''framework'')}
          then errors (check_document E c') = [] \<and> verdict (check_document E c') = 0
          else errors (check_document E c') =
                 [str ''Invalid hc_type: '' @ s @ str ''. Must be one of: registry, skill, artifact, identity, framework''] \<and>
               verdict (check_document E c') = 1)"
  using type_change[OF assms] assms(7) unfolding valid_types_literal invalid_type_text
  by (simp add: verdict_iff)

theorem invalid_type_flips_verdict_witness:
  \<open>verdict (check_document node_engine (page good_meta)) = 0 \<and>
   errors (check_document node_engine (page (type_meta (str ''"widget"'')))) =
     [str ''Invalid hc_type: widget. Must be one of: registry, skill, artifact, identity, framework''] \<and>
   verdict (check_document node_engine (page (type_meta (str ''"widget"'')))) = 1\<close>
proof -
  let ?good = "the (Some (JObject
       [(str ''hc_version'', JString (str ''1.1'')), (str ''hc_type'', JString (str ''skill'')),
        (str ''artifact_id'', JString (str ''hc-skill-a-1'')), (str ''version'', JString (str ''1'')),
        (str ''created'', JString (str ''2024-02-08'')),
        (str ''updated'', JString (str ''2024-02-08'')),
        (str ''summary'', JString (str ''a b c d e f g h i j''))]))"
  let ?widget = "the (Some (JObject
       [(str ''hc_version'', JString (str ''1.1'')), (str ''hc_type'', JString (str ''widget'')),
        (str ''artifact_id'', JString (str ''hc-skill-a-1'')), (str ''version'', JString (str ''1'')),
        (str ''created'', JString (str ''2024-02-08'')),
        (str ''updated'', JString (str ''2024-02-08'')),
        (str ''summary'', JString (str ''a b c d e f g h i j''))]))"
  have gp: "json_parse good_meta = Some ?good" by (simp only: good_parse option.sel)
  have wp: \<open>json_parse (type_meta (str ''"widget"'')) = Some ?widget\<close>
    by (simp only: widget_parse option.sel)
  have same: "\<forall>k. k \<noteq> str ''hc_type'' \<longrightarrow> own_property ?widget k = own_property ?good k"
    by simp
  have shell:
    \<open>errors (blocks_check REQUIRED_BLOCKS (page (type_meta (str ''"widget"'')))
       (doctype_check (page (type_meta (str ''"widget"''))) no_findings)) =
     errors (blocks_check REQUIRED_BLOCKS (page good_meta)
       (doctype_check (page good_meta) no_findings))\<close>
    by (simp only: good_page_shell widget_page_shell)
  have v: "own_property ?widget (str ''hc_type'') = Some (JString (str ''widget''))"
    by (simp add: str_def)
  have tv: "truthy (JString (str ''widget''))" by (simp add: str_def)
  have sv: "to_string node_engine (JString (str ''widget'')) = Inr (str ''widget'')" by simp
  from invalid_type_flips_verdict[OF good_page_match gp widget_page_match wp
      same shell good_page_errors v tv sv]
  show ?thesis by (simp add: str_def)
qed

end
